theory Spec2Isabelle
  imports Main "HOL-Library.Word"
begin

unbundle bit_operations_syntax

section \<open>The MD5 digest used by the hash key deriver\<close>

text \<open>
  \<^verbatim>\<open>crypto.createHash('md5').update(hashString).digest('hex')\<close>: the digest of RFC 1321 over
  the bytes of the string, printed as 32 lower-case hexadecimal digits. A string is the
  list of its bytes (UTF-8).
\<close>

type_synonym w32 = "32 word"

definition md5_K :: "w32 list" where
  "md5_K =
    [0xd76aa478, 0xe8c7b756, 0x242070db, 0xc1bdceee, 0xf57c0faf, 0x4787c62a, 0xa8304613, 0xfd469501,
     0x698098d8, 0x8b44f7af, 0xffff5bb1, 0x895cd7be, 0x6b901122, 0xfd987193, 0xa679438e, 0x49b40821,
     0xf61e2562, 0xc040b340, 0x265e5a51, 0xe9b6c7aa, 0xd62f105d, 0x02441453, 0xd8a1e681, 0xe7d3fbc8,
     0x21e1cde6, 0xc33707d6, 0xf4d50d87, 0x455a14ed, 0xa9e3e905, 0xfcefa3f8, 0x676f02d9, 0x8d2a4c8a,
     0xfffa3942, 0x8771f681, 0x6d9d6122, 0xfde5380c, 0xa4beea44, 0x4bdecfa9, 0xf6bb4b60, 0xbebfbc70,
     0x289b7ec6, 0xeaa127fa, 0xd4ef3085, 0x04881d05, 0xd9d4d039, 0xe6db99e5, 0x1fa27cf8, 0xc4ac5665,
     0xf4292244, 0x432aff97, 0xab9423a7, 0xfc93a039, 0x655b59c3, 0x8f0ccc92, 0xffeff47d, 0x85845dd1,
     0x6fa87e4f, 0xfe2ce6e0, 0xa3014314, 0x4e0811a1, 0xf7537e82, 0xbd3af235, 0x2ad7d2bb, 0xeb86d391]"

definition md5_S :: "nat list" where
  "md5_S =
    [7, 12, 17, 22, 7, 12, 17, 22, 7, 12, 17, 22, 7, 12, 17, 22,
     5, 9, 14, 20, 5, 9, 14, 20, 5, 9, 14, 20, 5, 9, 14, 20,
     4, 11, 16, 23, 4, 11, 16, 23, 4, 11, 16, 23, 4, 11, 16, 23,
     6, 10, 15, 21, 6, 10, 15, 21, 6, 10, 15, 21, 6, 10, 15, 21]"

definition md5_F :: "nat \<Rightarrow> w32 \<Rightarrow> w32 \<Rightarrow> w32 \<Rightarrow> w32" where
  "md5_F i b c d =
     (if i < 16 then (b AND c) OR (NOT b AND d)
      else if i < 32 then (d AND b) OR (NOT d AND c)
      else if i < 48 then b XOR c XOR d
      else c XOR (b OR NOT d))"

definition md5_g :: "nat \<Rightarrow> nat" where
  "md5_g i =
     (if i < 16 then i
      else if i < 32 then (5 * i + 1) mod 16
      else if i < 48 then (3 * i + 5) mod 16
      else (7 * i) mod 16)"

text \<open>One of the 64 steps on the block \<open>m\<close> (sixteen little-endian words).\<close>

definition md5_step :: "w32 list \<Rightarrow> w32 \<times> w32 \<times> w32 \<times> w32 \<Rightarrow> nat \<Rightarrow> w32 \<times> w32 \<times> w32 \<times> w32" where
  "md5_step m st i =
     (case st of (a, b, c, d) \<Rightarrow>
        (d, b + word_rotl (md5_S ! i) (a + md5_F i b c d + md5_K ! i + m ! md5_g i), b, c))"

definition md5_block :: "w32 \<times> w32 \<times> w32 \<times> w32 \<Rightarrow> w32 list \<Rightarrow> w32 \<times> w32 \<times> w32 \<times> w32" where
  "md5_block st m =
     (case st of (a0, b0, c0, d0) \<Rightarrow>
        (case foldl (md5_step m) st [0..<64] of (a, b, c, d) \<Rightarrow>
           (a0 + a, b0 + b, c0 + c, d0 + d)))"

definition le_bytes :: "nat \<Rightarrow> nat \<Rightarrow> nat list" where
  "le_bytes k n = map (\<lambda>i. (n div 256 ^ i) mod 256) [0..<k]"

definition md5_pad :: "nat list \<Rightarrow> nat list" where
  "md5_pad bs =
     bs @ [128] @ replicate ((55 + 64 - length bs mod 64) mod 64) 0
        @ le_bytes 8 ((8 * length bs) mod 2 ^ 64)"

fun le_words :: "nat list \<Rightarrow> w32 list" where
  "le_words (b0 # b1 # b2 # b3 # bs) =
     of_nat (b0 + 256 * b1 + 65536 * b2 + 16777216 * b3) # le_words bs"
| "le_words _ = []"

fun md5_blocks :: "w32 \<times> w32 \<times> w32 \<times> w32 \<Rightarrow> w32 list \<Rightarrow> w32 \<times> w32 \<times> w32 \<times> w32" where
  "md5_blocks st [] = st"
| "md5_blocks st ws = md5_blocks (md5_block st (take 16 ws)) (drop 16 ws)"

definition hex_digit :: "nat \<Rightarrow> char" where
  "hex_digit n = ''0123456789abcdef'' ! (n mod 16)"

definition hex_byte :: "nat \<Rightarrow> string" where
  "hex_byte b = [hex_digit (b div 16), hex_digit b]"

definition md5 :: "string \<Rightarrow> string" where
  "md5 s =
     (case md5_blocks (0x67452301, 0xefcdab89, 0x98badcfe, 0x10325476)
             (le_words (md5_pad (map of_char s))) of
        (a, b, c, d) \<Rightarrow>
          concat (map hex_byte (concat (map (\<lambda>w. le_bytes 4 (unat w)) [a, b, c, d]))))"


section \<open>The notification schema (models/Notification.js)\<close>

text \<open>
  A JavaScript value that may be \<^verbatim>\<open>undefined\<close> is an \<open>option\<close>. The paths of the schema,
  in the order the schema declares them; a payload handed to the engine and a stored
  document both carry them. Dates are milliseconds since the epoch, numbers are integers.
  A value of a payload is taken to have the type of its path already: a payload whose
  values the store would cast on saving (a number sent as a string) is outside the model.
\<close>

record fields =
  ntype :: "string option"
  title :: "string option"
  message :: "string option"
  productId :: "string option"
  productName :: "string option"
  currentStock :: "int option"
  minStock :: "int option"
  orderId :: "string option"
  taxId :: "string option"
  invoiceNo :: "string option"
  billNumber :: "string option"
  invoiceNumber :: "string option"
  customerName :: "string option"
  customer :: "string option"
  customerPhone :: "string option"
  gstin :: "string option"
  amount :: "int option"
  paymentMode :: "string option"
  daysSince :: "int option"
  priority :: "string option"
  color :: "string option"
  icon :: "string option"
  isRead :: "bool option"
  isResolved :: "bool option"
  resolutionNote :: "string option"
  timestamp :: "int option"
  lastUpdated :: "int option"
  resolvedAt :: "int option"
  notificationHash :: "string option"
  status :: "string option"
  isHighValue :: "bool option"

text \<open>
  The payload \<^verbatim>\<open>notificationData\<close>: the schema paths and the flag \<^verbatim>\<open>preserveTimestamp\<close>
  that \<^verbatim>\<open>upsertNotification\<close> reads (keys outside the schema are dropped by the store).
\<close>

record notificationData = fields +
  preserveTimestamp :: bool

text \<open>
  A stored document: the schema paths, the store's \<^verbatim>\<open>_id\<close> and the two dates that
  \<^verbatim>\<open>timestamps: true\<close> maintains.
\<close>

record notification = fields +
  oid :: nat
  createdAt :: int
  updatedAt :: int


text \<open>The empty object \<^verbatim>\<open>{}\<close>: every path undefined.\<close>

definition emptyData :: notificationData where
  "emptyData =
     \<lparr>ntype = None, title = None, message = None, productId = None, productName = None,
      currentStock = None, minStock = None, orderId = None, taxId = None, invoiceNo = None,
      billNumber = None, invoiceNumber = None, customerName = None, customer = None,
      customerPhone = None, gstin = None, amount = None, paymentMode = None, daysSince = None,
      priority = None, color = None, icon = None, isRead = None, isResolved = None,
      resolutionNote = None, timestamp = None, lastUpdated = None, resolvedAt = None,
      notificationHash = None, status = None, isHighValue = None, preserveTimestamp = False\<rparr>"

section \<open>The hash key deriver\<close>

text \<open>\<^verbatim>\<open>a || b\<close> on strings that may be undefined: the empty string is falsy too.\<close>

definition truthy :: "string option \<Rightarrow> bool" where
  "truthy a = (a \<noteq> None \<and> a \<noteq> Some [])"

definition js_or :: "string option \<Rightarrow> string option \<Rightarrow> string option" where
  "js_or a b = (if truthy a then a else b)"

text \<open>\<^verbatim>\<open>a || ''\<close>, as it is interpolated into the template string.\<close>

definition or_empty :: "string option \<Rightarrow> string" where
  "or_empty a = (case a of None \<Rightarrow> [] | Some x \<Rightarrow> x)"

text \<open>\<^verbatim>\<open>toLowerCase\<close> on the letters A to Z; every other byte is kept.\<close>

definition lower_char :: "char \<Rightarrow> char" where
  "lower_char c =
     (if (65::int) \<le> of_char c \<and> of_char c \<le> (90::int) then char_of (of_char c + (32::int))
      else c)"

definition toLowerCase :: "string \<Rightarrow> string" where
  "toLowerCase s = map lower_char s"

definition hashString :: "'a fields_scheme \<Rightarrow> string" where
  "hashString notificationData =
     toLowerCase
       (or_empty (ntype notificationData) @ ''_'' @
        or_empty (productId notificationData) @ ''_'' @
        or_empty (orderId notificationData) @ ''_'' @
        or_empty (taxId notificationData) @ ''_'' @
        or_empty (js_or (invoiceNo notificationData) (invoiceNumber notificationData)) @ ''_'' @
        or_empty (js_or (customerName notificationData) (customer notificationData)) @ ''_'' @
        or_empty (billNumber notificationData) @ ''_'' @
        or_empty (gstin notificationData))"

definition generateNotificationHash :: "'a fields_scheme \<Rightarrow> string" where
  "generateNotificationHash notificationData = md5 (hashString notificationData)"

section \<open>The notification store\<close>

text \<open>
  The collection in insertion order, and the counter the next \<^verbatim>\<open>_id\<close> is taken from (an
  identifier is never handed out twice).
\<close>

record store =
  docs :: "notification list"
  nextId :: nat

text \<open>
  What a store call or the engine can throw: a failed validator, the duplicate-key error
  (code 11000) with the \<^verbatim>\<open>keyValue.notificationHash\<close> it reports, and the TypeError of
  reading a property of \<^verbatim>\<open>null\<close>.
\<close>

datatype error =
    ValidationError
  | DuplicateKey string
  | TypeError

text \<open>Schema defaults, applied to a path the payload leaves undefined.\<close>

definition dflt :: "'a \<Rightarrow> 'a option \<Rightarrow> 'a option" where
  "dflt v x = (case x of None \<Rightarrow> Some v | Some y \<Rightarrow> Some y)"

text \<open>An update sets the paths the payload defines and leaves the others.\<close>

definition upd :: "'a option \<Rightarrow> 'a option \<Rightarrow> 'a option" where
  "upd new old = (case new of None \<Rightarrow> old | Some v \<Rightarrow> Some v)"

text \<open>
  \<^verbatim>\<open>productId\<close> is the one path that is not a string, number, boolean or date: the store
  casts it to an ObjectId. The cast accepts the 24 hexadecimal digits of an ObjectId and
  fails on any other string; read back, the id prints in lower case.
\<close>

definition hexDigits :: string where
  "hexDigits = ''0123456789abcdefABCDEF''"

definition isObjectId :: "string \<Rightarrow> bool" where
  "isObjectId x = (length x = 24 \<and> list_all (\<lambda>c. c \<in> set hexDigits) x)"

definition castable :: "string option \<Rightarrow> bool" where
  "castable x = (case x of None \<Rightarrow> True | Some v \<Rightarrow> isObjectId v)"

definition castId :: "string option \<Rightarrow> string option" where
  "castId x = map_option toLowerCase x"

definition typeEnum :: "string list" where
  "typeEnum = [''Low Stock'', ''Out of Stock'', ''Payment Alert'', ''GST Alert'', ''System Alert'']"

definition priorityEnum :: "string list" where
  "priorityEnum = [''low'', ''medium'', ''high'']"

definition colorEnum :: "string list" where
  "colorEnum = [''red'', ''orange'', ''yellow'', ''green'', ''blue'', ''purple'', ''gray'']"

text \<open>\<^verbatim>\<open>required: true\<close> on a string path: defined and not empty.\<close>

definition required :: "string option \<Rightarrow> bool" where
  "required x = (case x of None \<Rightarrow> False | Some v \<Rightarrow> v \<noteq> [])"

definition inEnum :: "string list \<Rightarrow> string option \<Rightarrow> bool" where
  "inEnum vs x = (case x of None \<Rightarrow> True | Some v \<Rightarrow> v \<in> set vs)"

text \<open>The casts and validators that run when a document is saved.\<close>

definition validateDoc :: "'a fields_scheme \<Rightarrow> bool" where
  "validateDoc d =
     (required (ntype d) \<and> inEnum typeEnum (ntype d) \<and> required (title d) \<and> required (message d)
      \<and> castable (productId d)
      \<and> inEnum priorityEnum (priority d) \<and> inEnum colorEnum (color d))"

text \<open>
  \<^verbatim>\<open>runValidators: true\<close> on an update: the casts and validators of the paths the
  update sets.
\<close>

definition requiredIfSet :: "string option \<Rightarrow> bool" where
  "requiredIfSet x = (case x of None \<Rightarrow> True | Some v \<Rightarrow> v \<noteq> [])"

definition validateUpdate :: "'a fields_scheme \<Rightarrow> bool" where
  "validateUpdate u =
     (requiredIfSet (ntype u) \<and> inEnum typeEnum (ntype u) \<and> requiredIfSet (title u)
      \<and> requiredIfSet (message u) \<and> castable (productId u)
      \<and> inEnum priorityEnum (priority u) \<and> inEnum colorEnum (color u))"

text \<open>The unique sparse index on \<^verbatim>\<open>notificationHash\<close>: documents without the path are not indexed.\<close>

definition hashTaken :: "notification list \<Rightarrow> string \<Rightarrow> bool" where
  "hashTaken ds h = (\<exists>d \<in> set ds. notificationHash d = Some h)"


definition insertDoc :: "notification \<Rightarrow> store \<Rightarrow> error + store" where
  "insertDoc d s =
     (if \<not> validateDoc d then Inl ValidationError
      else case notificationHash d of
          Some h \<Rightarrow>
            if hashTaken (docs s) h then Inl (DuplicateKey h)
            else Inr (s\<lparr>docs := docs s @ [d], nextId := Suc (nextId s)\<rparr>)
        | None \<Rightarrow> Inr (s\<lparr>docs := docs s @ [d], nextId := Suc (nextId s)\<rparr>))"

text \<open>\<^verbatim>\<open>updateOne\<close> changes the first document that matches, \<^verbatim>\<open>updateMany\<close> every one.\<close>

fun updateOne :: "('a \<Rightarrow> bool) \<Rightarrow> ('a \<Rightarrow> 'a) \<Rightarrow> 'a list \<Rightarrow> 'a list" where
  "updateOne p f [] = []"
| "updateOne p f (d # ds) = (if p d then f d # ds else d # updateOne p f ds)"

definition updateMany :: "('a \<Rightarrow> bool) \<Rightarrow> ('a \<Rightarrow> 'a) \<Rightarrow> 'a list \<Rightarrow> 'a list" where
  "updateMany p f ds = map (\<lambda>d. if p d then f d else d) ds"

definition deleteMany :: "('a \<Rightarrow> bool) \<Rightarrow> 'a list \<Rightarrow> 'a list" where
  "deleteMany p ds = filter (\<lambda>d. \<not> p d) ds"

section \<open>The upsert engine (upsertNotification)\<close>

datatype action = Created | Updated | Unchanged | Recovered

record upsertResult =
  notification :: notification
  isNew :: bool
  updated :: bool
  action :: action

text \<open>
  The events sent to every connected client. \<^verbatim>\<open>notification_created\<close>: the record, the
  source and the hash; \<^verbatim>\<open>notification_updated\<close>: the record, \<^verbatim>\<open>oldId\<close>, the source and the
  hash; \<^verbatim>\<open>notification_resolved\<close>: the id, the hash, the resolution note and the source;
  \<^verbatim>\<open>notification_deleted\<close>: the id, productId, productName, type, hash and source;
  \<^verbatim>\<open>stock_updated\<close>: productId, productName, currentStock, minStock and the number of
  alerts removed.
\<close>

datatype event =
    notification_created notification string string
  | notification_updated notification nat string "string option"
  | notification_resolved nat "string option" string string
  | notification_deleted nat "string option" "string option" "string option" "string option" string
  | stock_updated "string option" "string option" int int nat

definition emit :: "bool \<Rightarrow> event list \<Rightarrow> event list" where
  "emit io evs = (if io then evs else [])"

text \<open>
  \<^verbatim>\<open>thirtyDaysAgo.setDate(thirtyDaysAgo.getDate() - 30)\<close>: thirty days before \<open>now\<close>, a
  day taken as 24 hours.
\<close>

definition thirtyDaysAgo :: "int \<Rightarrow> int" where
  "thirtyDaysAgo now = now - 30 * (24 * 60 * 60 * 1000)"

text \<open>\<^verbatim>\<open>notificationData.notificationHash || generateNotificationHash(notificationData)\<close>\<close>

definition hashOf :: "'a fields_scheme \<Rightarrow> string" where
  "hashOf notificationData =
     (case notificationHash notificationData of
        None \<Rightarrow> generateNotificationHash notificationData
      | Some h \<Rightarrow> if h = [] then generateNotificationHash notificationData else h)"

text \<open>The filter \<^verbatim>\<open>{ notificationHash: h, timestamp: { $gte: thirtyDaysAgo } }\<close>.\<close>

definition recentWithHash :: "string \<Rightarrow> int \<Rightarrow> notification \<Rightarrow> bool" where
  "recentWithHash h t0 d =
     (notificationHash d = Some h \<and> (case timestamp d of None \<Rightarrow> False | Some t \<Rightarrow> t0 \<le> t))"

definition hasChanges :: "notification \<Rightarrow> notificationData \<Rightarrow> bool" where
  "hasChanges existingNotification notificationData =
     (currentStock existingNotification \<noteq> currentStock notificationData \<or>
      amount existingNotification \<noteq> amount notificationData \<or>
      daysSince existingNotification \<noteq> daysSince notificationData \<or>
      priority existingNotification \<noteq> priority notificationData \<or>
      ntype existingNotification \<noteq> ntype notificationData \<or>
      message existingNotification \<noteq> message notificationData \<or>
      title existingNotification \<noteq> title notificationData \<or>
      isRead existingNotification \<noteq> isRead notificationData \<or>
      isResolved existingNotification \<noteq> isResolved notificationData \<or>
      color existingNotification \<noteq> color notificationData \<or>
      paymentMode existingNotification \<noteq> paymentMode notificationData \<or>
      customerPhone existingNotification \<noteq> customerPhone notificationData \<or>
      invoiceNumber existingNotification \<noteq> invoiceNumber notificationData)"

text \<open>
  \<^verbatim>\<open>new Notification({...notificationData, notificationHash, timestamp: new Date(),
  lastUpdated: new Date(), createdBy: source, isResolved: false})\<close> with the schema defaults.
\<close>

definition newNotification :: "nat \<Rightarrow> int \<Rightarrow> string \<Rightarrow> notificationData \<Rightarrow> notification" where
  "newNotification i now h notificationData =
     \<lparr>ntype = ntype notificationData,
      title = title notificationData,
      message = message notificationData,
      productId = castId (productId notificationData),
      productName = productName notificationData,
      currentStock = currentStock notificationData,
      minStock = minStock notificationData,
      orderId = orderId notificationData,
      taxId = taxId notificationData,
      invoiceNo = invoiceNo notificationData,
      billNumber = billNumber notificationData,
      invoiceNumber = invoiceNumber notificationData,
      customerName = customerName notificationData,
      customer = customer notificationData,
      customerPhone = customerPhone notificationData,
      gstin = gstin notificationData,
      amount = amount notificationData,
      paymentMode = paymentMode notificationData,
      daysSince = daysSince notificationData,
      priority = dflt ''medium'' (priority notificationData),
      color = dflt ''gray'' (color notificationData),
      icon = dflt ''Bell'' (icon notificationData),
      isRead = dflt False (isRead notificationData),
      isResolved = Some False,
      resolutionNote = resolutionNote notificationData,
      timestamp = Some now,
      lastUpdated = Some now,
      resolvedAt = resolvedAt notificationData,
      notificationHash = Some h,
      status = status notificationData,
      isHighValue = isHighValue notificationData,
      oid = i,
      createdAt = now,
      updatedAt = now\<rparr>"

text \<open>
  The update \<^verbatim>\<open>{...notificationData, lastUpdated: new Date(), updatedBy: source,
  timestamp: notificationData.preserveTimestamp ? existingNotification.timestamp : new Date()}\<close>
  applied to the stored document.
\<close>

definition applyUpdate :: "int \<Rightarrow> notificationData \<Rightarrow> notification \<Rightarrow> notification \<Rightarrow> notification" where
  "applyUpdate now notificationData existingNotification d =
     d\<lparr>ntype := upd (ntype notificationData) (ntype d),
       title := upd (title notificationData) (title d),
       message := upd (message notificationData) (message d),
       productId := upd (castId (productId notificationData)) (productId d),
       productName := upd (productName notificationData) (productName d),
       currentStock := upd (currentStock notificationData) (currentStock d),
       minStock := upd (minStock notificationData) (minStock d),
       orderId := upd (orderId notificationData) (orderId d),
       taxId := upd (taxId notificationData) (taxId d),
       invoiceNo := upd (invoiceNo notificationData) (invoiceNo d),
       billNumber := upd (billNumber notificationData) (billNumber d),
       invoiceNumber := upd (invoiceNumber notificationData) (invoiceNumber d),
       customerName := upd (customerName notificationData) (customerName d),
       customer := upd (customer notificationData) (customer d),
       customerPhone := upd (customerPhone notificationData) (customerPhone d),
       gstin := upd (gstin notificationData) (gstin d),
       amount := upd (amount notificationData) (amount d),
       paymentMode := upd (paymentMode notificationData) (paymentMode d),
       daysSince := upd (daysSince notificationData) (daysSince d),
       priority := upd (priority notificationData) (priority d),
       color := upd (color notificationData) (color d),
       icon := upd (icon notificationData) (icon d),
       isRead := upd (isRead notificationData) (isRead d),
       isResolved := upd (isResolved notificationData) (isResolved d),
       resolutionNote := upd (resolutionNote notificationData) (resolutionNote d),
       timestamp :=
         upd (if preserveTimestamp notificationData then timestamp existingNotification else Some now)
           (timestamp d),
       lastUpdated := Some now,
       resolvedAt := upd (resolvedAt notificationData) (resolvedAt d),
       notificationHash := upd (notificationHash notificationData) (notificationHash d),
       status := upd (status notificationData) (status d),
       isHighValue := upd (isHighValue notificationData) (isHighValue d),
       updatedAt := now\<rparr>"

text \<open>
  \<^verbatim>\<open>Notification.findOneAndUpdate({ _id }, update, { new: true, runValidators: true })\<close>:
  the update validators, then the write (against the unique index), and the document as it
  is after the update, or \<^verbatim>\<open>null\<close> when no document has the id.
\<close>

definition findOneAndUpdate ::
  "nat \<Rightarrow> int \<Rightarrow> notificationData \<Rightarrow> notification \<Rightarrow> store \<Rightarrow> error + (notification option \<times> store)" where
  "findOneAndUpdate i now notificationData existingNotification s =
     (if \<not> validateUpdate notificationData then Inl ValidationError
      else case find (\<lambda>d. oid d = i) (docs s) of
          None \<Rightarrow> Inr (None, s)
        | Some d \<Rightarrow>
            (let d' = applyUpdate now notificationData existingNotification d in
             case notificationHash notificationData of
               None \<Rightarrow> Inr (Some d', s\<lparr>docs := updateOne (\<lambda>x. oid x = i) (\<lambda>_. d') (docs s)\<rparr>)
             | Some h \<Rightarrow>
                 if notificationHash d \<noteq> Some h \<and> hashTaken (docs s) h then Inl (DuplicateKey h)
                 else Inr (Some d', s\<lparr>docs := updateOne (\<lambda>x. oid x = i) (\<lambda>_. d') (docs s)\<rparr>)))"

text \<open>The body of the \<^verbatim>\<open>try\<close> block, for the hash \<open>h\<close> the lookup uses.\<close>

definition tryUpsert ::
  "int \<Rightarrow> notificationData \<Rightarrow> bool \<Rightarrow> string \<Rightarrow> string \<Rightarrow> store
     \<Rightarrow> error + (upsertResult \<times> store \<times> event list)" where
  "tryUpsert now notificationData io source h s =
     (case find (recentWithHash h (thirtyDaysAgo now)) (docs s) of
        Some existingNotification \<Rightarrow>
          if hasChanges existingNotification notificationData then
            (case findOneAndUpdate (oid existingNotification) now notificationData
                    existingNotification s of
               Inl e \<Rightarrow> Inl e
             | Inr (None, s') \<Rightarrow> Inl TypeError
             | Inr (Some updatedNotification, s') \<Rightarrow>
                 Inr (\<lparr>notification = updatedNotification, isNew = False, updated = True,
                        action = Updated\<rparr>,
                      s',
                      emit io [notification_updated updatedNotification (oid existingNotification)
                                 source (Some h)]))
          else
            Inr (\<lparr>notification = existingNotification, isNew = False, updated = False,
                   action = Unchanged\<rparr>, s, [])
      | None \<Rightarrow>
          (let newDoc = newNotification (nextId s) now h notificationData in
           case insertDoc newDoc s of
             Inl e \<Rightarrow> Inl e
           | Inr s' \<Rightarrow>
               Inr (\<lparr>notification = newDoc, isNew = True, updated = False, action = Created\<rparr>,
                    s',
                    emit io [notification_created newDoc source h])))"

text \<open>
  \<^verbatim>\<open>upsertNotification(notificationData, io, source)\<close> at the time \<open>now\<close> on the store
  \<open>s\<close>: the result, the store after the call and the events emitted, or the error thrown.
  The \<^verbatim>\<open>catch\<close> block re-reads the record of a duplicate-key error and rethrows anything
  else.
\<close>

definition upsertNotification ::
  "int \<Rightarrow> notificationData \<Rightarrow> bool \<Rightarrow> string \<Rightarrow> store
     \<Rightarrow> error + (upsertResult \<times> store \<times> event list)" where
  "upsertNotification now notificationData io source s =
     (case tryUpsert now notificationData io source (hashOf notificationData) s of
        Inr r \<Rightarrow> Inr r
      | Inl (DuplicateKey k) \<Rightarrow>
          (case find (\<lambda>d. notificationHash d = Some k) (docs s) of
             Some existingNotification \<Rightarrow>
               Inr (\<lparr>notification = existingNotification, isNew = False, updated = False,
                      action = Recovered\<rparr>, s, [])
           | None \<Rightarrow> Inl (DuplicateKey k))
      | Inl e \<Rightarrow> Inl e)"

text \<open>What a caller observes of an outcome.\<close>

definition actionOf :: "error + (upsertResult \<times> store \<times> event list) \<Rightarrow> action option" where
  "actionOf r = (case r of Inl e \<Rightarrow> None | Inr (res, s, evs) \<Rightarrow> Some (action res))"

definition storeAfter :: "store \<Rightarrow> error + (upsertResult \<times> store \<times> event list) \<Rightarrow> store" where
  "storeAfter s r = (case r of Inl e \<Rightarrow> s | Inr (res, s', evs) \<Rightarrow> s')"

definition eventsOf :: "error + (upsertResult \<times> store \<times> event list) \<Rightarrow> event list" where
  "eventsOf r = (case r of Inl e \<Rightarrow> [] | Inr (res, s, evs) \<Rightarrow> evs)"

definition notificationOf :: "error + (upsertResult \<times> store \<times> event list) \<Rightarrow> notification option" where
  "notificationOf r = (case r of Inl e \<Rightarrow> None | Inr (res, s, evs) \<Rightarrow> Some (notification res))"

section \<open>The route handlers on stored notifications\<close>

text \<open>An HTTP answer: 200 with a body, or one of the error statuses the handlers send.\<close>

datatype 'a response = Ok 'a | BadRequest | NotFound | ServerError

text \<open>A stable insertion sort by a comparison, for \<^verbatim>\<open>.sort(...)\<close>.\<close>

fun insertBy :: "('a \<Rightarrow> 'a \<Rightarrow> bool) \<Rightarrow> 'a \<Rightarrow> 'a list \<Rightarrow> 'a list" where
  "insertBy le x [] = [x]"
| "insertBy le x (y # ys) = (if le x y then x # y # ys else y # insertBy le x ys)"

definition sortBy :: "('a \<Rightarrow> 'a \<Rightarrow> bool) \<Rightarrow> 'a list \<Rightarrow> 'a list" where
  "sortBy le xs = foldr (insertBy le) xs []"

text \<open>\<^verbatim>\<open>{ timestamp: -1 }\<close>: newest first, documents without the path last.\<close>

definition newerFirst :: "'a fields_scheme \<Rightarrow> 'a fields_scheme \<Rightarrow> bool" where
  "newerFirst a b =
     (case (timestamp a, timestamp b) of
        (Some x, Some y) \<Rightarrow> y \<le> x
      | (Some x, None) \<Rightarrow> True
      | (None, Some y) \<Rightarrow> False
      | (None, None) \<Rightarrow> True)"

text \<open>
  The active-feed query of \<^verbatim>\<open>GET /\<close>:
  \<^verbatim>\<open>Notification.find({ isResolved: false }).sort({ timestamp: -1 }).limit(100)\<close>.
\<close>

definition activeFeedQuery :: "store \<Rightarrow> notification list" where
  "activeFeedQuery s = take 100 (sortBy newerFirst (filter (\<lambda>d. isResolved d = Some False) (docs s)))"

text \<open>\<^verbatim>\<open>PUT /:id/read\<close>\<close>

definition markRead :: "int \<Rightarrow> nat \<Rightarrow> bool \<Rightarrow> store \<Rightarrow> notification option response \<times> store \<times> event list" where
  "markRead now i io s =
     (case find (\<lambda>d. oid d = i) (docs s) of
        None \<Rightarrow> (NotFound, s, [])
      | Some n \<Rightarrow>
          (let s' = s\<lparr>docs := updateOne (\<lambda>d. oid d = i)
                       (\<lambda>d. d\<lparr>isRead := Some True, lastUpdated := Some now, updatedAt := now\<rparr>) (docs s)\<rparr>;
               updatedNotification = find (\<lambda>d. oid d = i) (docs s')
           in (Ok updatedNotification, s',
               emit io (case updatedNotification of
                          None \<Rightarrow> []
                        | Some u \<Rightarrow> [notification_updated u (oid n) ''notification_page'' (notificationHash n)]))))"

text \<open>\<^verbatim>\<open>PUT /:id/resolve\<close> with the body's \<^verbatim>\<open>resolutionNote\<close>.\<close>

definition resolveNotification ::
  "int \<Rightarrow> nat \<Rightarrow> string option \<Rightarrow> bool \<Rightarrow> store \<Rightarrow> notification option response \<times> store \<times> event list" where
  "resolveNotification now i note io s =
     (case find (\<lambda>d. oid d = i) (docs s) of
        None \<Rightarrow> (NotFound, s, [])
      | Some n \<Rightarrow>
          (let s' = s\<lparr>docs := updateOne (\<lambda>d. oid d = i)
                       (\<lambda>d. d\<lparr>isResolved := Some True, isRead := Some True,
                               resolutionNote := js_or note (Some ''Manually resolved''),
                               resolvedAt := Some now, lastUpdated := Some now,
                               updatedAt := now\<rparr>) (docs s)\<rparr>
           in (Ok (find (\<lambda>d. oid d = i) (docs s')), s',
               emit io [notification_resolved (oid n) (notificationHash n)
                          (or_empty (js_or note (Some ''Manually resolved''))) ''notification_page''])))"

text \<open>\<^verbatim>\<open>PUT /mark-all-read\<close>\<close>

definition markAllRead :: "int \<Rightarrow> bool \<Rightarrow> store \<Rightarrow> nat response \<times> store \<times> event list" where
  "markAllRead now io s =
     (let notifications = filter (\<lambda>d. isResolved d = Some False \<and> isRead d = Some False) (docs s);
          s' = s\<lparr>docs := updateMany (\<lambda>d. isResolved d = Some False \<and> isRead d = Some False)
                      (\<lambda>d. d\<lparr>isRead := Some True, lastUpdated := Some now, updatedAt := now\<rparr>) (docs s)\<rparr>
      in (Ok (length notifications), s',
          emit io (map (\<lambda>n. notification_updated (n\<lparr>isRead := Some True\<rparr>) (oid n)
                                ''notification_page'' (notificationHash n)) notifications)))"

text \<open>
  The \<^verbatim>\<open>notification_deleted\<close> event of a record, as \<^verbatim>\<open>DELETE /:id\<close> and the
  clear-resolved handler build it, from the record's own fields.
\<close>

definition deletedEvent :: "string \<Rightarrow> notification \<Rightarrow> event" where
  "deletedEvent source n =
     notification_deleted (oid n) (productId n) (productName n) (ntype n) (notificationHash n) source"

text \<open>\<^verbatim>\<open>DELETE /:id\<close>\<close>

definition deleteNotification :: "nat \<Rightarrow> bool \<Rightarrow> store \<Rightarrow> unit response \<times> store \<times> event list" where
  "deleteNotification i io s =
     (case find (\<lambda>d. oid d = i) (docs s) of
        None \<Rightarrow> (NotFound, s, [])
      | Some n \<Rightarrow>
          (Ok (), s\<lparr>docs := remove1 n (docs s)\<rparr>, emit io [deletedEvent ''notification_page'' n]))"

text \<open>
  The handler registered for \<^verbatim>\<open>DELETE /clear-resolved\<close>; the body is the number of deleted
  records.
\<close>

definition clearResolved :: "bool \<Rightarrow> store \<Rightarrow> nat response \<times> store \<times> event list" where
  "clearResolved io s =
     (let resolvedNotifications = filter (\<lambda>d. isResolved d = Some True \<or> isRead d = Some True) (docs s);
          remaining = deleteMany (\<lambda>d. isResolved d = Some True \<or> isRead d = Some True) (docs s)
      in (Ok (length (docs s) - length remaining), s\<lparr>docs := remaining\<rparr>,
          emit io (map (deletedEvent ''notification_page'') resolvedNotifications)))"

section \<open>The stock check (POST /check-stock)\<close>

text \<open>A number interpolated into a template string: its decimal digits.\<close>

fun showNat :: "nat \<Rightarrow> string" where
  "showNat n = (if n < 10 then [hex_digit n] else showNat (n div 10) @ [hex_digit (n mod 10)])"

definition showInt :: "int \<Rightarrow> string" where
  "showInt i = (if i < 0 then ''-'' @ showNat (nat (- i)) else showNat (nat i))"

text \<open>A string that may be undefined, interpolated into a template string.\<close>

definition interp :: "string option \<Rightarrow> string" where
  "interp x = (case x of None \<Rightarrow> ''undefined'' | Some v \<Rightarrow> v)"

record stockBody =
  body_productId :: "string option"
  body_productName :: "string option"
  body_currentStock :: "int option"
  body_minStock :: "int option"

definition stockTypes :: "string list" where
  "stockTypes = [''Low Stock'', ''Out of Stock'']"

text \<open>The payload of case 1, \<^verbatim>\<open>currentStock === 0\<close>.\<close>

definition outOfStockData :: "stockBody \<Rightarrow> notificationData" where
  "outOfStockData b =
     emptyData\<lparr>ntype := Some ''Out of Stock'',
       title := Some ''Out of Stock Alert'',
       message := Some (interp (body_productName b) @ '' is completely out of stock''),
       productName := body_productName b,
       productId := body_productId b,
       currentStock := body_currentStock b,
       minStock := body_minStock b,
       priority := Some ''high'',
       color := Some ''red'',
       icon := Some ''Package''\<rparr>"

text \<open>The payload of case 2, \<^verbatim>\<open>currentStock > 0 && currentStock <= minStock\<close>.\<close>

definition lowStockData :: "stockBody \<Rightarrow> int \<Rightarrow> notificationData" where
  "lowStockData b cs =
     emptyData\<lparr>ntype := Some ''Low Stock'',
       title := Some (if cs \<le> 2 then ''Critical Stock Alert'' else ''Low Stock Warning''),
       message := Some (interp (body_productName b) @ '' stock is ''
                         @ (if cs \<le> 2 then ''critically'' else []) @ '' low ('' @ showInt cs
                         @ '' units remaining)''),
       productName := body_productName b,
       productId := body_productId b,
       currentStock := body_currentStock b,
       minStock := body_minStock b,
       priority := Some (if cs \<le> 2 then ''high'' else if cs \<le> 5 then ''medium'' else ''low''),
       color := Some (if cs \<le> 2 then ''red'' else ''orange''),
       icon := Some ''Package''\<rparr>"

datatype stockAnswer =
    alert upsertResult
  | alerts_deleted nat
  | no_alert_needed

text \<open>
  The filter \<^verbatim>\<open>{ productId, type: { $in: ['Low Stock', 'Out of Stock'] } }\<close>, for the id
  the filter's \<^verbatim>\<open>productId\<close> is cast to.
\<close>

definition stockAlertOf :: "string option \<Rightarrow> notification \<Rightarrow> bool" where
  "stockAlertOf p d =
     (productId d = p \<and> (case ntype d of None \<Rightarrow> False | Some t \<Rightarrow> t \<in> set stockTypes))"

definition checkStock ::
  "int \<Rightarrow> stockBody \<Rightarrow> bool \<Rightarrow> store \<Rightarrow> stockAnswer response \<times> store \<times> event list" where
  "checkStock now b io s =
     (case (body_currentStock b, body_minStock b) of
        (None, _) \<Rightarrow> (BadRequest, s, [])
      | (_, None) \<Rightarrow> (BadRequest, s, [])
      | (Some cs, Some ms) \<Rightarrow>
          if cs = 0 then
            (case upsertNotification now (outOfStockData b) io ''stock_service'' s of
               Inl e \<Rightarrow> (ServerError, s, [])
             | Inr (result, s', evs) \<Rightarrow> (Ok (alert result), s', evs))
          else if 0 < cs \<and> cs \<le> ms then
            (case upsertNotification now (lowStockData b cs) io ''stock_service'' s of
               Inl e \<Rightarrow> (ServerError, s, [])
             | Inr (result, s', evs) \<Rightarrow> (Ok (alert result), s', evs))
          else if \<not> castable (body_productId b) then (ServerError, s, [])
          else
            (let existingNotifications =
                   filter (\<lambda>d. stockAlertOf (castId (body_productId b)) d
                              \<and> isResolved d = Some False) (docs s)
             in if existingNotifications \<noteq> [] then
                  (let remaining = deleteMany (stockAlertOf (castId (body_productId b))) (docs s);
                       deletedCount = length (docs s) - length remaining
                   in (Ok (alerts_deleted deletedCount), s\<lparr>docs := remaining\<rparr>,
                       emit io (map (\<lambda>n. notification_deleted (oid n) (body_productId b)
                                             (body_productName b) (ntype n) (notificationHash n)
                                             ''stock_service'') existingNotifications
                                @ [stock_updated (body_productId b) (body_productName b) cs ms
                                     deletedCount])))
                else (Ok no_alert_needed, s, [])))"

text \<open>The action a stock check reports, when it upserted an alert.\<close>

definition alertAction :: "stockAnswer response \<times> store \<times> event list \<Rightarrow> action option" where
  "alertAction x = (case fst x of Ok (alert r) \<Rightarrow> Some (action r) | _ \<Rightarrow> None)"

section \<open>The alert generators\<close>

text \<open>
  The domain stores the generators scan, as far as the generators read them. A tax entry
  (models/Tax.js) and an order, with the paths the code reads; the flags say which of
  the four scans throws, and whether the Order model could be loaded at all.
  \<^verbatim>\<open>toLocaleString\<close> is the number formatting of the runtime's locale.
\<close>

record taxEntry =
  tax_id :: string
  tax_invoiceNo :: "string option"
  tax_date :: "int option"
  tax_createdAt :: "int option"
  tax_customer :: "string option"
  tax_gstin :: "string option"
  tax_totalTax :: int
  tax_totalAmount :: int
  tax_status :: "string option"

record order =
  order_orderId :: "string option"
  order_billNumber :: "string option"
  order_invoiceNumber :: "string option"
  order_date :: "int option"
  order_createdAt :: "int option"
  order_customerName :: "string option"
  order_customerPhone :: "string option"
  order_phone :: "string option"
  order_totalAmount :: int
  order_amount :: int
  order_paymentMode :: "string option"
  order_paymentStatus :: "string option"

record domain =
  taxEntries :: "taxEntry list"
  orders :: "order list"
  orderModel :: bool
  pendingTaxScanFails :: bool
  paidTaxScanFails :: bool
  pendingOrderScanFails :: bool
  paidOrderScanFails :: bool
  toLocaleString :: "int \<Rightarrow> string"

text \<open>A case-insensitive regular expression that is a plain word: the word occurs in the string.\<close>

fun startsWith :: "string \<Rightarrow> string \<Rightarrow> bool" where
  "startsWith [] s = True"
| "startsWith (p # ps) [] = False"
| "startsWith (p # ps) (c # cs) = (p = c \<and> startsWith ps cs)"

fun occursIn :: "string \<Rightarrow> string \<Rightarrow> bool" where
  "occursIn p [] = (p = [])"
| "occursIn p (c # cs) = (startsWith p (c # cs) \<or> occursIn p cs)"

definition matchesCI :: "string list \<Rightarrow> string option \<Rightarrow> bool" where
  "matchesCI words x =
     (case x of None \<Rightarrow> False | Some v \<Rightarrow> \<exists>w \<in> set words. occursIn w (toLowerCase v))"

text \<open>\<^verbatim>\<open>a || b\<close> on dates: a date object is truthy whenever it is defined.\<close>

definition firstDefined :: "int option \<Rightarrow> int option \<Rightarrow> int \<Rightarrow> int" where
  "firstDefined a b c = (case a of Some x \<Rightarrow> x | None \<Rightarrow> (case b of Some y \<Rightarrow> y | None \<Rightarrow> c))"

text \<open>\<^verbatim>\<open>Math.floor((now - date) / (1000 * 60 * 60 * 24))\<close>\<close>

definition daysBetween :: "int \<Rightarrow> int \<Rightarrow> int" where
  "daysBetween now date = (now - date) div (1000 * 60 * 60 * 24)"

text \<open>
  The scan \<^verbatim>\<open>TaxEntry.find(pending or draft).sort({ date: -1 }).limit(20)\<close> and the scan of
  the entries marked paid, completed or done.
\<close>

definition laterTax :: "taxEntry \<Rightarrow> taxEntry \<Rightarrow> bool" where
  "laterTax a b =
     (case (tax_date a, tax_date b) of
        (Some x, Some y) \<Rightarrow> y \<le> x
      | (Some x, None) \<Rightarrow> True
      | (None, Some y) \<Rightarrow> False
      | (None, None) \<Rightarrow> True)"

definition pendingTaxEntries :: "domain \<Rightarrow> taxEntry list" where
  "pendingTaxEntries env =
     take 20 (sortBy laterTax
       (filter (\<lambda>t. matchesCI [''pending'', ''draft''] (tax_status t)) (taxEntries env)))"

definition paidTaxEntries :: "domain \<Rightarrow> taxEntry list" where
  "paidTaxEntries env =
     filter (\<lambda>t. matchesCI [''paid'', ''completed'', ''done''] (tax_status t)) (taxEntries env)"

text \<open>The payload built for one pending tax entry.\<close>

definition gstData :: "int \<Rightarrow> taxEntry \<Rightarrow> notificationData" where
  "gstData now tax =
     (let taxDate = firstDefined (tax_date tax) (tax_createdAt tax) now;
          daysSinceEntry = daysBetween now taxDate;
          taxAmount = (if tax_totalTax tax \<noteq> 0 then tax_totalTax tax else tax_totalAmount tax);
          isHighValue' = (10000 \<le> taxAmount);
          alertTitle = (if 7 \<le> daysSinceEntry then ''GST Payment Overdue!''
                        else if 3 \<le> daysSinceEntry then ''GST Payment Due Soon''
                        else ''GST Payment Pending'');
          priority' = (if 7 \<le> daysSinceEntry then ''high'' else ''medium'');
          color' = (if 7 \<le> daysSinceEntry then ''red''
                    else if 3 \<le> daysSinceEntry then ''orange'' else ''blue'');
          messagePrefix =
            (if 7 \<le> daysSinceEntry then
               ''GST payment overdue for '' @ showInt daysSinceEntry @ '' days''
             else if 3 \<le> daysSinceEntry then
               ''GST payment due in '' @ showInt (7 - daysSinceEntry) @ '' days''
             else ''GST payment pending ('' @ showInt daysSinceEntry @ '' days)'')
      in emptyData\<lparr>ntype := Some ''GST Alert'',
           title := Some alertTitle,
           message := Some (messagePrefix @ '' for invoice ''
                            @ or_empty (js_or (tax_invoiceNo tax) (Some (tax_id tax)))
                            @ ''. Customer: ''
                            @ or_empty (js_or (tax_customer tax) (Some ''Unknown''))),
           taxId := Some (tax_id tax),
           invoiceNo := js_or (tax_invoiceNo tax) (Some (''TAX-'' @ tax_id tax)),
           customer := js_or (tax_customer tax) (Some ''Unknown Customer''),
           gstin := js_or (tax_gstin tax) (Some ''N/A''),
           amount := Some taxAmount,
           isHighValue := Some isHighValue',
           daysSince := Some daysSinceEntry,
           status := js_or (tax_status tax) (Some ''Unknown''),
           timestamp := Some taxDate,
           isRead := Some False,
           color := Some color',
           icon := Some ''FileText'',
           priority := Some (if isHighValue' then ''high'' else priority'),
           isResolved := Some False\<rparr>)"

text \<open>
  One turn of the loop over the scanned records: the upsert, whose result is pushed when it
  created or updated a record; an upsert that throws is logged and the loop goes on.
\<close>

definition alertStep ::
  "int \<Rightarrow> bool \<Rightarrow> string \<Rightarrow> notification list \<times> store \<times> event list \<Rightarrow> notificationData
     \<Rightarrow> notification list \<times> store \<times> event list" where
  "alertStep now io source st notificationData =
     (case st of (alerts, s, evs) \<Rightarrow>
        (case upsertNotification now notificationData io source s of
           Inl e \<Rightarrow> (alerts, s, evs)
         | Inr (result, s', evs') \<Rightarrow>
             (if action result = Created \<or> action result = Updated
              then alerts @ [notification result] else alerts,
              s', evs @ evs')))"

text \<open>
  One turn of the resolution sweep, for the hash of a paid record: every unresolved
  notification with the hash is marked resolved, and one event is emitted for each.
\<close>

definition resolveStep ::
  "int \<Rightarrow> bool \<Rightarrow> string \<Rightarrow> store \<times> event list \<Rightarrow> string \<times> string \<Rightarrow> store \<times> event list" where
  "resolveStep now io source st hn =
     (case (st, hn) of ((s, evs), (h, note)) \<Rightarrow>
        (let existingAlerts =
               filter (\<lambda>d. notificationHash d = Some h \<and> isResolved d = Some False) (docs s)
         in if existingAlerts \<noteq> [] then
              (s\<lparr>docs := updateMany (\<lambda>d. notificationHash d = Some h \<and> isResolved d = Some False)
                           (\<lambda>d. d\<lparr>isResolved := Some True, isRead := Some True,
                                   resolutionNote := Some note, resolvedAt := Some now,
                                   lastUpdated := Some now, updatedAt := now\<rparr>) (docs s)\<rparr>,
               evs @ emit io (map (\<lambda>a. notification_resolved (oid a) (Some h) note source)
                                existingAlerts))
            else (s, evs)))"

text \<open>The hash and the resolution note of the sweep for a paid tax entry.\<close>

definition paidTaxHash :: "taxEntry \<Rightarrow> string \<times> string" where
  "paidTaxHash tax =
     (generateNotificationHash (emptyData\<lparr>ntype := Some ''GST Alert'', taxId := Some (tax_id tax)\<rparr>),
      ''GST payment marked as '' @ interp (tax_status tax))"

text \<open>
  \<^verbatim>\<open>generateGSTAlerts(io)\<close>: the alerts it returns, the store and the events after it. A
  failing scan of the pending entries returns the empty list at once; a failure of the
  scan of the paid entries is caught by the outer \<^verbatim>\<open>catch\<close>, which returns \<^verbatim>\<open>[]\<close> and
  keeps what was written before.
\<close>

definition generateGSTAlerts ::
  "int \<Rightarrow> bool \<Rightarrow> domain \<Rightarrow> store \<Rightarrow> notification list \<times> store \<times> event list" where
  "generateGSTAlerts now io env s =
     (if pendingTaxScanFails env then ([], s, [])
      else
        (case foldl (alertStep now io ''gst_service'') ([], s, [])
                (map (gstData now) (pendingTaxEntries env)) of
           (alerts, s1, evs1) \<Rightarrow>
             if paidTaxScanFails env then ([], s1, evs1)
             else
               (case foldl (resolveStep now io ''gst_service'') (s1, evs1)
                       (map paidTaxHash (paidTaxEntries env)) of
                  (s2, evs2) \<Rightarrow> (alerts, s2, evs2))))"

text \<open>The orders with a payment pending, due or overdue, and the orders paid.\<close>

definition laterOrder :: "order \<Rightarrow> order \<Rightarrow> bool" where
  "laterOrder a b =
     (case (order_date a, order_date b) of
        (Some x, Some y) \<Rightarrow> y \<le> x
      | (Some x, None) \<Rightarrow> True
      | (None, Some y) \<Rightarrow> False
      | (None, None) \<Rightarrow> True)"

definition pendingStatuses :: "string list" where
  "pendingStatuses =
     [''pending'', ''Pending'', ''PENDING'', ''due'', ''Due'', ''DUE'', ''overdue'', ''Overdue'',
      ''OVERDUE'']"

definition pendingOrders :: "domain \<Rightarrow> order list" where
  "pendingOrders env =
     take 20 (sortBy laterOrder
       (filter (\<lambda>ord. case order_paymentStatus ord of
                         None \<Rightarrow> False | Some v \<Rightarrow> v \<in> set pendingStatuses) (orders env)))"

definition paidOrders :: "domain \<Rightarrow> order list" where
  "paidOrders env =
     filter (\<lambda>ord. matchesCI [''paid'', ''completed'', ''done''] (order_paymentStatus ord))
       (orders env)"

text \<open>The rupee sign and the warning sign, as UTF-8.\<close>

definition rupee :: string where
  "rupee = [char_of (0xE2::nat), char_of (0x82::nat), char_of (0xB9::nat)]"

definition warningSign :: string where
  "warningSign =
     [char_of (0xE2::nat), char_of (0x9A::nat), char_of (0xA0::nat), char_of (0xEF::nat),
      char_of (0xB8::nat), char_of (0x8F::nat)]"

text \<open>The payload built for one order whose payment is pending.\<close>

definition paymentData :: "int \<Rightarrow> domain \<Rightarrow> order \<Rightarrow> notificationData" where
  "paymentData now env ord =
     (let orderDate = firstDefined (order_date ord) (order_createdAt ord) now;
          daysSinceOrder = daysBetween now orderDate;
          orderAmount = (if order_totalAmount ord \<noteq> 0 then order_totalAmount ord
                         else order_amount ord);
          isHighValue' = (5000 \<le> orderAmount);
          alertTitle =
            (if 7 \<le> daysSinceOrder then
               (if isHighValue' then warningSign @ '' High-Value Payment Severely Overdue!''
                else ''Payment Severely Overdue!'')
             else if 3 \<le> daysSinceOrder then
               (if isHighValue' then warningSign @ '' High-Value Payment Overdue''
                else ''Payment Overdue'')
             else
               (if isHighValue' then warningSign @ '' High-Value Payment Pending''
                else ''Payment Pending''));
          priority' =
            (if 7 \<le> daysSinceOrder then ''high''
             else if 3 \<le> daysSinceOrder then (if isHighValue' then ''high'' else ''medium'')
             else ''medium'');
          color' = (if 7 \<le> daysSinceOrder then ''red''
                    else if 3 \<le> daysSinceOrder then ''orange'' else ''blue'');
          messagePrefix =
            (if 7 \<le> daysSinceOrder then
               ''Payment severely overdue for '' @ showInt daysSinceOrder @ '' days''
             else if 3 \<le> daysSinceOrder then
               ''Payment overdue for '' @ showInt daysSinceOrder @ '' days''
             else ''Payment pending for '' @ showInt daysSinceOrder @ '' days'')
      in emptyData\<lparr>ntype := Some ''Payment Alert'',
           title := Some alertTitle,
           message := Some (messagePrefix @ ''. Customer: ''
                            @ or_empty (js_or (order_customerName ord) (Some ''Unknown''))
                            @ ''. Amount: '' @ rupee @ toLocaleString env orderAmount),
           orderId := order_orderId ord,
           billNumber := js_or (order_billNumber ord)
                           (js_or (order_invoiceNumber ord)
                              (Some (''ORD-'' @ interp (order_orderId ord)))),
           customerName := js_or (order_customerName ord) (Some ''Unknown Customer''),
           customerPhone := js_or (order_customerPhone ord)
                              (js_or (order_phone ord) (Some ''N/A'')),
           amount := Some orderAmount,
           paymentMode := js_or (order_paymentMode ord) (Some ''Unknown''),
           invoiceNumber := js_or (order_billNumber ord)
                              (js_or (order_invoiceNumber ord)
                                 (Some (''INV-'' @ interp (order_orderId ord)))),
           isHighValue := Some isHighValue',
           daysSince := Some daysSinceOrder,
           timestamp := Some orderDate,
           isRead := Some False,
           color := Some color',
           icon := Some (if isHighValue' then ''DollarSign'' else ''CreditCard''),
           priority := Some priority',
           isResolved := Some False\<rparr>)"

definition paidOrderHash :: "order \<Rightarrow> string \<times> string" where
  "paidOrderHash ord =
     (generateNotificationHash
        (emptyData\<lparr>ntype := Some ''Payment Alert'', orderId := order_orderId ord\<rparr>),
      ''Payment marked as '' @ interp (order_paymentStatus ord))"

text \<open>
  \<^verbatim>\<open>generatePaymentAlerts(io)\<close>, built like the GST generator; without the Order model it
  returns the empty list. An order without \<^verbatim>\<open>orderId\<close> is skipped.
\<close>

definition generatePaymentAlerts ::
  "int \<Rightarrow> bool \<Rightarrow> domain \<Rightarrow> store \<Rightarrow> notification list \<times> store \<times> event list" where
  "generatePaymentAlerts now io env s =
     (if \<not> orderModel env then ([], s, [])
      else if pendingOrderScanFails env then ([], s, [])
      else
        (case foldl (alertStep now io ''payment_service'') ([], s, [])
                (map (paymentData now env)
                   (filter (\<lambda>ord. truthy (order_orderId ord)) (pendingOrders env))) of
           (alerts, s1, evs1) \<Rightarrow>
             if paidOrderScanFails env then ([], s1, evs1)
             else
               (case foldl (resolveStep now io ''payment_service'') (s1, evs1)
                       (map paidOrderHash (paidOrders env)) of
                  (s2, evs2) \<Rightarrow> (alerts, s2, evs2))))"

section \<open>The feed read (GET /)\<close>

text \<open>
  The \<^verbatim>\<open>Map\<close> keyed by hash, in insertion order: an entry is added when its hash
  (\<^verbatim>\<open>n.notificationHash || generateNotificationHash(n)\<close>) is not yet a key.
\<close>

definition addIfAbsent :: "(string \<times> notification) list \<Rightarrow> notification \<Rightarrow> (string \<times> notification) list" where
  "addIfAbsent m n = (if hashOf n \<in> set (map fst m) then m else m @ [(hashOf n, n)])"

text \<open>The comparison of the final sort: by \<^verbatim>\<open>timestamp || createdAt || 0\<close>, newest first.\<close>

definition feedDate :: "notification \<Rightarrow> int" where
  "feedDate n = firstDefined (timestamp n) (Some (createdAt n)) 0"

text \<open>
  The list the handler answers with: the stored unresolved notifications, then the alerts
  of the two generators, deduplicated by hash, the resolved ones filtered out, sorted.
\<close>

definition feedList :: "notification list \<Rightarrow> notification list \<Rightarrow> notification list \<Rightarrow> notification list" where
  "feedList storedNotifications gstAlerts paymentAlerts =
     (let m = foldl addIfAbsent (foldl addIfAbsent (foldl addIfAbsent [] storedNotifications)
                 gstAlerts) paymentAlerts;
          uniqueNotifications = filter (\<lambda>n. isResolved n \<noteq> Some True) (map snd m)
      in sortBy (\<lambda>a b. feedDate b \<le> feedDate a) uniqueNotifications)"

text \<open>
  The handler: the query, then the two generators one after the other, each inside its own
  \<^verbatim>\<open>try\<close>. It answers 200 with the list.
\<close>

definition getNotifications ::
  "int \<Rightarrow> bool \<Rightarrow> domain \<Rightarrow> store \<Rightarrow> notification list response \<times> store \<times> event list" where
  "getNotifications now io env s =
     (case generateGSTAlerts now io env s of
        (gstAlerts, s1, evs1) \<Rightarrow>
          (case generatePaymentAlerts now io env s1 of
             (paymentAlerts, s2, evs2) \<Rightarrow>
               (Ok (feedList (activeFeedQuery s) gstAlerts paymentAlerts), s2, evs1 @ evs2)))"

section \<open>The socket handlers of the server\<close>

text \<open>
  The server has an upsert of its own for the notifications that arrive over the socket:
  it looks for an unread record of the same type and product, overwrites it, or creates a
  record, which then has no \<^verbatim>\<open>notificationHash\<close>. The handlers of \<^verbatim>\<open>stock_updated\<close> and
  \<^verbatim>\<open>new_notification\<close> call it with the payload they build or receive. Only the store is
  followed here, not the socket events. A failed cast or validation leaves the store as it
  is.
\<close>

definition serverUpsert :: "int \<Rightarrow> notificationData \<Rightarrow> store \<Rightarrow> store" where
  "serverUpsert now notificationData s =
     (if \<not> castable (productId notificationData) then s
      else case find (\<lambda>d. ntype d = ntype notificationData
                           \<and> productId d = castId (productId notificationData)
                           \<and> isRead d = Some False) (docs s) of
        Some existingNotification \<Rightarrow>
          (let d' = existingNotification\<lparr>title := title notificationData,
                      message := message notificationData,
                      currentStock := currentStock notificationData,
                      minStock := minStock notificationData,
                      priority := dflt ''medium'' (priority notificationData),
                      color := dflt ''blue'' (color notificationData),
                      timestamp := dflt now (timestamp notificationData),
                      updatedAt := now\<rparr>
           in if validateDoc d'
              then s\<lparr>docs := updateOne (\<lambda>x. oid x = oid existingNotification) (\<lambda>_. d') (docs s)\<rparr>
              else s)
      | None \<Rightarrow>
          (let d = (newNotification (nextId s) now [] emptyData)
                     \<lparr>ntype := ntype notificationData,
                      title := title notificationData,
                      message := message notificationData,
                      productName := productName notificationData,
                      productId := castId (productId notificationData),
                      currentStock := currentStock notificationData,
                      minStock := minStock notificationData,
                      priority := dflt ''medium'' (priority notificationData),
                      color := dflt ''blue'' (color notificationData),
                      icon := dflt ''Bell'' (icon notificationData),
                      timestamp := dflt now (timestamp notificationData),
                      isRead := dflt False (isRead notificationData),
                      notificationHash := None\<rparr>
           in if validateDoc d then s\<lparr>docs := docs s @ [d], nextId := Suc (nextId s)\<rparr> else s))"

text \<open>
  The socket handlers \<^verbatim>\<open>mark_notification_read\<close>, \<^verbatim>\<open>mark_all_read\<close> and
  \<^verbatim>\<open>delete_notification\<close>.
\<close>

definition socketMarkRead :: "int \<Rightarrow> nat \<Rightarrow> store \<Rightarrow> store" where
  "socketMarkRead now i s =
     s\<lparr>docs := updateOne (\<lambda>d. oid d = i) (\<lambda>d. d\<lparr>isRead := Some True, updatedAt := now\<rparr>) (docs s)\<rparr>"

definition socketMarkAllRead :: "int \<Rightarrow> store \<Rightarrow> store" where
  "socketMarkAllRead now s =
     s\<lparr>docs := updateMany (\<lambda>d. isRead d = Some False)
                 (\<lambda>d. d\<lparr>isRead := Some True, updatedAt := now\<rparr>) (docs s)\<rparr>"

definition socketDelete :: "nat \<Rightarrow> store \<Rightarrow> store" where
  "socketDelete i s =
     (case find (\<lambda>d. oid d = i) (docs s) of
        None \<Rightarrow> s
      | Some n \<Rightarrow> s\<lparr>docs := remove1 n (docs s)\<rparr>)"

section \<open>The reachable stores\<close>

text \<open>
  One step of the system: any of the operations that write the notification store, with
  any arguments. The store starts empty.
\<close>

inductive step :: "store \<Rightarrow> store \<Rightarrow> bool" where
  step_upsert:
    "upsertNotification now notificationData io source s = Inr (r, s', evs) \<Longrightarrow> step s s'"
| step_checkStock: "step s (fst (snd (checkStock now b io s)))"
| step_markRead: "step s (fst (snd (markRead now i io s)))"
| step_resolve: "step s (fst (snd (resolveNotification now i note io s)))"
| step_markAllRead: "step s (fst (snd (markAllRead now io s)))"
| step_delete: "step s (fst (snd (deleteNotification i io s)))"
| step_clearResolved: "step s (fst (snd (clearResolved io s)))"
| step_feed: "step s (fst (snd (getNotifications now io env s)))"
| step_socketUpsert: "step s (serverUpsert now notificationData s)"
| step_socketMarkRead: "step s (socketMarkRead now i s)"
| step_socketMarkAllRead: "step s (socketMarkAllRead now s)"
| step_socketDelete: "step s (socketDelete i s)"

inductive reachable :: "store \<Rightarrow> bool" where
  reachable_init: "reachable \<lparr>docs = [], nextId = 0\<rparr>"
| reachable_step: "reachable s \<Longrightarrow> step s s' \<Longrightarrow> reachable s'"

text \<open>The hashes the stored records carry, in the order of the records.\<close>

definition hashes :: "notification list \<Rightarrow> string list" where
  "hashes ds = List.map_filter notificationHash ds"

text \<open>
  The invariant of the store: identifiers are distinct and below the counter, and no hash
  is carried by two records.
\<close>

definition wellFormed :: "store \<Rightarrow> bool" where
  "wellFormed s =
     (distinct (map oid (docs s)) \<and> (\<forall>d \<in> set (docs s). oid d < nextId s)
      \<and> distinct (hashes (docs s)))"

section \<open>Sample payloads and stores\<close>

text \<open>
  A payload as a page submits it to \<^verbatim>\<open>POST /update-from-page\<close>, every tracked field and
  the hash supplied, and the stores the examples below start from.
\<close>

definition samplePayload :: notificationData where
  "samplePayload =
     emptyData\<lparr>ntype := Some ''GST Alert'',
       title := Some ''GST Payment Overdue!'',
       message := Some ''GST payment overdue for 8 days for invoice INV-001. Customer: Unknown'',
       taxId := Some ''t1'',
       invoiceNo := Some ''INV-001'',
       amount := Some 500,
       daysSince := Some 8,
       priority := Some ''high'',
       color := Some ''red'',
       icon := Some ''FileText'',
       isRead := Some False,
       isResolved := Some False,
       notificationHash := Some ''h1''\<rparr>"

definition emptyStore :: store where
  "emptyStore = \<lparr>docs = [], nextId = 0\<rparr>"

text \<open>Three stored records: one unread, one read but unresolved, one resolved.\<close>

definition unreadDoc :: notification where
  "unreadDoc = newNotification 0 1000 ''h1'' samplePayload"

definition readDoc :: notification where
  "readDoc = (newNotification 1 1000 ''h2'' samplePayload)\<lparr>isRead := Some True\<rparr>"

definition resolvedDoc :: notification where
  "resolvedDoc =
     (newNotification 2 1000 ''h3'' samplePayload)\<lparr>isRead := Some True, isResolved := Some True\<rparr>"

definition threeDocs :: store where
  "threeDocs = \<lparr>docs = [unreadDoc, readDoc, resolvedDoc], nextId = 3\<rparr>"

text \<open>A store whose only record is resolved and carries the hash of the sample payload.\<close>

definition resolvedH1 :: notification where
  "resolvedH1 =
     (newNotification 0 1000 ''h1'' samplePayload)\<lparr>isRead := Some True, isResolved := Some True\<rparr>"

definition oneResolved :: store where
  "oneResolved = \<lparr>docs = [resolvedH1], nextId = 1\<rparr>"

text \<open>
  The id of a product, and the body of a stock check that finds the product sold out and
  of one that finds it restocked.
\<close>

definition penId :: string where
  "penId = ''64b7f0a1c2d3e4f5a6b7c8d9''"

definition soldOut :: stockBody where
  "soldOut =
     \<lparr>body_productId = Some penId, body_productName = Some ''Pen'',
      body_currentStock = Some 0,
      body_minStock = Some 10\<rparr>"

definition restocked :: stockBody where
  "restocked =
     \<lparr>body_productId = Some penId, body_productName = Some ''Pen'',
      body_currentStock = Some 50,
      body_minStock = Some 10\<rparr>"

text \<open>A store whose only record is the unread sample record.\<close>

definition oneUnread :: store where
  "oneUnread = \<lparr>docs = [unreadDoc], nextId = 1\<rparr>"

text \<open>
  The store after a stock check found the product sold out and the alert it created was
  resolved by hand, and the store after a further stock check found it sold out again.
\<close>

definition soldOutResolved :: store where
  "soldOutResolved =
     fst (snd (resolveNotification 2000 0 None True
                 (fst (snd (checkStock 1000 soldOut True emptyStore)))))"

definition soldOutAgain :: store where
  "soldOutAgain = fst (snd (checkStock 3000 soldOut True soldOutResolved))"

text \<open>The store after one stock check found the product sold out.\<close>

definition soldOutOnce :: store where
  "soldOutOnce = fst (snd (checkStock 1000 soldOut True emptyStore))"



section \<open>Properties\<close>

lemma length_hex_byte: "length (hex_byte b) = 2"
  by (simp add: hex_byte_def)

lemma length_le_bytes: "length (le_bytes k n) = k"
  by (simp add: le_bytes_def)

lemma length_md5: "length (md5 s) = 32"
  by (simp add: md5_def length_hex_byte length_le_bytes length_concat sum_list_triv o_def
      split: prod.splits)


lemma castable_None [simp]: "castable None"
  by (simp add: castable_def)

lemma lower_char_hexDigits: "list_all (\<lambda>c. lower_char c \<in> set hexDigits) hexDigits"
  by (simp add: hexDigits_def lower_char_def char_of_def)

lemma lower_char_hex: "c \<in> set hexDigits \<Longrightarrow> lower_char c \<in> set hexDigits"
  using lower_char_hexDigits by (simp add: list_all_iff)

lemmas lower_eval = toLowerCase_def lower_char_def char_of_def

lemma isObjectId_toLowerCase: "isObjectId x \<Longrightarrow> isObjectId (toLowerCase x)"
  by (simp add: isObjectId_def toLowerCase_def list_all_iff lower_char_hex)

lemma castable_castId: "castable p \<Longrightarrow> castable (castId p)"
  by (cases p) (simp_all add: castable_def castId_def isObjectId_toLowerCase)

lemma penId_cast: "isObjectId penId" "toLowerCase penId = penId"
  by (simp_all add: penId_def isObjectId_def hexDigits_def lower_eval)

lemma set_insertBy: "set (insertBy le x xs) = insert x (set xs)"
  by (induction xs) auto

lemma set_sortBy: "set (sortBy le xs) = set xs"
  by (induction xs) (simp_all add: sortBy_def set_insertBy)

lemma length_updateOne: "length (updateOne p f xs) = length xs"
  by (induction xs) simp_all

lemma map_updateOne_inv: "(\<And>x. g (f x) = g x) \<Longrightarrow> map g (updateOne p f xs) = map g xs"
  by (induction xs) simp_all

lemma find_updateOne_mem: "find p xs = Some n \<Longrightarrow> f n \<in> set (updateOne p f xs)"
  by (induction xs) (auto split: if_splits)

lemma find_updateOne_same:
  "find p xs = Some n \<Longrightarrow> p (f n) \<Longrightarrow> find p (updateOne p f xs) = Some (f n)"
  by (induction xs) (auto split: if_splits)

lemma activeFeedQuery_unresolved: "d \<in> set (activeFeedQuery s) \<Longrightarrow> isResolved d = Some False"
  by (auto simp: activeFeedQuery_def set_sortBy dest!: in_set_takeD)

lemmas sample_defs = samplePayload_def emptyData_def emptyStore_def unreadDoc_def readDoc_def
  resolvedDoc_def threeDocs_def newNotification_def dflt_def

subsection \<open>Resolution keeps the record (C9)\<close>

text \<open>
  C9. Resolving a notification by id sets its \<^verbatim>\<open>isResolved\<close> flag and deletes nothing: the
  store holds the same records, the resolved one among them. The active-feed query returns
  only records whose \<^verbatim>\<open>isResolved\<close> is false, so the resolved record is not in its
  result although it is still stored.
\<close>

theorem resolve_keeps_record_out_of_feed:
  assumes "find (\<lambda>d. oid d = i) (docs s) = Some n"
  shows "\<exists>s' evs n'. resolveNotification now i note io s = (Ok (Some n'), s', evs)
     \<and> isResolved n' = Some True \<and> oid n' = i
     \<and> n' \<in> set (docs s') \<and> map oid (docs s') = map oid (docs s)
     \<and> n' \<notin> set (activeFeedQuery s')
     \<and> (\<forall>d \<in> set (activeFeedQuery s'). isResolved d = Some False)"
proof -
  let ?f = "\<lambda>d::notification. d\<lparr>isResolved := Some True, isRead := Some True,
                               resolutionNote := js_or note (Some ''Manually resolved''),
                               resolvedAt := Some now, lastUpdated := Some now,
                               updatedAt := now\<rparr>"
  let ?s' = "s\<lparr>docs := updateOne (\<lambda>d. oid d = i) ?f (docs s)\<rparr>"
  have oidn: "oid n = i" using assms by (auto dest: find_Some_iff[THEN iffD1])
  have f1: "find (\<lambda>d. oid d = i) (docs ?s') = Some (?f n)"
    using find_updateOne_same[OF assms, of ?f] oidn by simp
  have mem: "?f n \<in> set (docs ?s')" using find_updateOne_mem[OF assms, of ?f] by simp
  have ids: "map oid (docs ?s') = map oid (docs s)" by (simp add: map_updateOne_inv)
  have nf: "?f n \<notin> set (activeFeedQuery ?s')"
    using activeFeedQuery_unresolved[of "?f n" ?s'] by auto
  have eq: "resolveNotification now i note io s = (Ok (Some (?f n)), ?s',
      emit io [notification_resolved (oid n) (notificationHash n)
                 (or_empty (js_or note (Some ''Manually resolved''))) ''notification_page''])"
    using assms f1 by (simp add: resolveNotification_def Let_def)
  show ?thesis
    using eq mem ids nf oidn activeFeedQuery_unresolved
    by (intro exI conjI) (assumption | simp | blast)+
qed

theorem resolve_keeps_record_out_of_feed_witness:
  "find (\<lambda>d. oid d = 0) (docs threeDocs) = Some unreadDoc
   \<and> (\<exists>s' evs n'. resolveNotification 5000 0 None True threeDocs = (Ok (Some n'), s', evs)
     \<and> isResolved n' = Some True \<and> oid n' = 0
     \<and> n' \<in> set (docs s') \<and> map oid (docs s') = [0, 1, 2]
     \<and> n' \<notin> set (activeFeedQuery s'))"
proof -
  have h: "find (\<lambda>d. oid d = 0) (docs threeDocs) = Some unreadDoc"
    by (simp add: sample_defs)
  have ids: "map oid (docs threeDocs) = [0, 1, 2]"
    by (simp add: sample_defs)
  show ?thesis
    using resolve_keeps_record_out_of_feed[OF h, of 5000 None True] h ids by auto
qed

subsection \<open>The clear-resolved sweep (C10)\<close>

text \<open>
  C10. The clear-resolved sweep deletes every record that is resolved or read: whatever
  the store holds, afterwards no record with \<^verbatim>\<open>isResolved\<close> true or \<^verbatim>\<open>isRead\<close> true is
  left, so an unresolved record that has only been read is deleted too.
\<close>

theorem clearResolved_deletes_read_or_resolved:
  "\<exists>n evs s'. clearResolved io s = (Ok n, s', evs)
     \<and> docs s' = filter (\<lambda>d. \<not> (isResolved d = Some True \<or> isRead d = Some True)) (docs s)
     \<and> (\<forall>d \<in> set (docs s'). isResolved d \<noteq> Some True \<and> isRead d \<noteq> Some True)
     \<and> (\<forall>d \<in> set (docs s). isResolved d = Some False \<and> isRead d = Some True
            \<longrightarrow> d \<notin> set (docs s'))"
  by (auto simp: clearResolved_def Let_def deleteMany_def)

theorem clearResolved_deletes_read_or_resolved_witness:
  "readDoc \<in> set (docs threeDocs) \<and> isResolved readDoc = Some False \<and> isRead readDoc = Some True
   \<and> (\<exists>n evs s'. clearResolved True threeDocs = (Ok n, s', evs) \<and> docs s' = [unreadDoc]
         \<and> readDoc \<notin> set (docs s'))"
proof -
  have h: "readDoc \<in> set (docs threeDocs) \<and> isResolved readDoc = Some False
           \<and> isRead readDoc = Some True"
    by (simp add: sample_defs)
  have f: "filter (\<lambda>d. \<not> (isResolved d = Some True \<or> isRead d = Some True)) (docs threeDocs)
           = [unreadDoc]"
    by (simp add: sample_defs)
  show ?thesis
    using clearResolved_deletes_read_or_resolved[of True threeDocs] h f by auto
qed


subsection \<open>The four outcomes of upsertNotification\<close>

lemma validateDoc_newNotification:
  "validateDoc c \<Longrightarrow> validateDoc (newNotification i now h c)"
  by (auto simp: validateDoc_def newNotification_def dflt_def inEnum_def priorityEnum_def
      colorEnum_def castable_castId split: option.splits)

lemma hashTaken_find:
  "hashTaken ds k \<Longrightarrow>
     \<exists>e. find (\<lambda>d. notificationHash d = Some k) ds = Some e \<and> notificationHash e = Some k
         \<and> e \<in> set ds"
  by (cases "find (\<lambda>d. notificationHash d = Some k) ds")
     (auto simp: hashTaken_def find_None_iff find_Some_iff)

lemma insertDoc_DuplicateKey:
  "insertDoc d s = Inl (DuplicateKey k) \<Longrightarrow> hashTaken (docs s) k"
  by (auto simp: insertDoc_def split: if_splits option.splits)

lemma findOneAndUpdate_DuplicateKey:
  "findOneAndUpdate i now c e s = Inl (DuplicateKey k) \<Longrightarrow> hashTaken (docs s) k"
  by (auto simp: findOneAndUpdate_def Let_def split: if_splits option.splits)

lemma tryUpsert_DuplicateKey:
  "tryUpsert now c io src h s = Inl (DuplicateKey k) \<Longrightarrow> hashTaken (docs s) k"
  by (auto simp: tryUpsert_def Let_def split: if_splits option.splits sum.splits prod.splits
      dest: insertDoc_DuplicateKey findOneAndUpdate_DuplicateKey)

lemma upsert_never_DuplicateKey:
  "upsertNotification now c io src s \<noteq> Inl (DuplicateKey k)"
proof
  assume a: "upsertNotification now c io src s = Inl (DuplicateKey k)"
  then obtain k' where t: "tryUpsert now c io src (hashOf c) s = Inl (DuplicateKey k')"
    by (auto simp: upsertNotification_def split: sum.splits error.splits option.splits)
  from hashTaken_find[OF tryUpsert_DuplicateKey[OF t]] a t show False
    by (auto simp: upsertNotification_def)
qed

lemma upsert_unchanged:
  assumes "find (recentWithHash (hashOf c) (thirtyDaysAgo now)) (docs s) = Some e"
    and "\<not> hasChanges e c"
  shows "upsertNotification now c io src s =
     Inr (\<lparr>notification = e, isNew = False, updated = False, action = Unchanged\<rparr>, s, [])"
  using assms by (simp add: upsertNotification_def tryUpsert_def)

lemma upsert_created:
  assumes "find (recentWithHash (hashOf c) (thirtyDaysAgo now)) (docs s) = None"
    and "validateDoc c" and "\<not> hashTaken (docs s) (hashOf c)"
  shows "upsertNotification now c io src s =
     Inr (\<lparr>notification = newNotification (nextId s) now (hashOf c) c, isNew = True,
            updated = False, action = Created\<rparr>,
          s\<lparr>docs := docs s @ [newNotification (nextId s) now (hashOf c) c],
            nextId := Suc (nextId s)\<rparr>,
          emit io [notification_created (newNotification (nextId s) now (hashOf c) c) src
                     (hashOf c)])"
proof -
  have "insertDoc (newNotification (nextId s) now (hashOf c) c) s =
     Inr (s\<lparr>docs := docs s @ [newNotification (nextId s) now (hashOf c) c],
            nextId := Suc (nextId s)\<rparr>)"
    using assms(2,3)
    by (simp add: insertDoc_def validateDoc_newNotification) (simp add: newNotification_def)
  then show ?thesis
    using assms(1) by (simp add: upsertNotification_def tryUpsert_def Let_def)
qed

lemma upsert_recovered:
  assumes "find (recentWithHash (hashOf c) (thirtyDaysAgo now)) (docs s) = None"
    and "insertDoc (newNotification (nextId s) now (hashOf c) c) s = Inl (DuplicateKey k)"
  shows "\<exists>e. find (\<lambda>d. notificationHash d = Some k) (docs s) = Some e
     \<and> notificationHash e = Some k
     \<and> upsertNotification now c io src s =
         Inr (\<lparr>notification = e, isNew = False, updated = False, action = Recovered\<rparr>, s, [])"
proof -
  from hashTaken_find[OF insertDoc_DuplicateKey[OF assms(2)]]
  obtain e where e: "find (\<lambda>d. notificationHash d = Some k) (docs s) = Some e"
    "notificationHash e = Some k"
    by blast
  then show ?thesis using assms
    by (simp add: upsertNotification_def tryUpsert_def Let_def)
qed

lemma find_by_oid:
  "distinct (map oid ds) \<Longrightarrow> e \<in> set ds \<Longrightarrow> find (\<lambda>d. oid d = oid e) ds = Some e"
  by (induction ds) (auto simp: image_iff)

lemma find_recent_props:
  assumes "find (recentWithHash h t0) ds = Some e"
  shows "e \<in> set ds" and "notificationHash e = Some h"
    and "\<exists>t. timestamp e = Some t \<and> t0 \<le> t"
  using assms
  by (auto simp: find_Some_iff recentWithHash_def split: option.splits)

lemma hashOf_nonempty: "hashOf c \<noteq> []"
  using length_md5[of "hashString c"]
  by (auto simp: hashOf_def generateNotificationHash_def split: option.splits)

lemma upsert_updated:
  assumes look: "find (recentWithHash (hashOf c) (thirtyDaysAgo now)) (docs s) = Some e"
    and ch: "hasChanges e c" and val: "validateUpdate c"
    and ids: "distinct (map oid (docs s))"
    and nh: "notificationHash c \<noteq> Some []"
  shows "upsertNotification now c io src s =
     Inr (\<lparr>notification = applyUpdate now c e e, isNew = False, updated = True,
            action = Updated\<rparr>,
          s\<lparr>docs := updateOne (\<lambda>x. oid x = oid e) (\<lambda>_. applyUpdate now c e e) (docs s)\<rparr>,
          emit io [notification_updated (applyUpdate now c e e) (oid e) src (Some (hashOf c))])"
proof -
  have f: "find (\<lambda>d. oid d = oid e) (docs s) = Some e"
    using find_by_oid[OF ids find_recent_props(1)[OF look]] .
  have eh: "notificationHash e = Some (hashOf c)"
    using find_recent_props(2)[OF look] .
  have same: "\<And>h. notificationHash c = Some h \<Longrightarrow> notificationHash e = Some h"
    using nh eh by (auto simp: hashOf_def)
  have "findOneAndUpdate (oid e) now c e s =
     Inr (Some (applyUpdate now c e e),
          s\<lparr>docs := updateOne (\<lambda>x. oid x = oid e) (\<lambda>_. applyUpdate now c e e) (docs s)\<rparr>)"
    using val f same by (auto simp: findOneAndUpdate_def Let_def split: option.splits)
  then show ?thesis
    using look ch by (simp add: upsertNotification_def tryUpsert_def)
qed


subsection \<open>The hash key deriver (C5)\<close>

text \<open>
  C5. The derived key depends only on type, productId, orderId, taxId, invoiceNo (or else
  invoiceNumber), customerName (or else customer), billNumber and gstin, an absent field
  counting as the empty string: two payloads that agree on these have the same digest,
  whatever else they carry (one may be a payload and the other a stored record), and the
  digest is a string of 32 characters.
\<close>

theorem generateNotificationHash_identity_fields:
  fixes a :: "'a fields_scheme" and b :: "'b fields_scheme"
  assumes "or_empty (ntype a) = or_empty (ntype b)"
    and "or_empty (productId a) = or_empty (productId b)"
    and "or_empty (orderId a) = or_empty (orderId b)"
    and "or_empty (taxId a) = or_empty (taxId b)"
    and "or_empty (js_or (invoiceNo a) (invoiceNumber a))
         = or_empty (js_or (invoiceNo b) (invoiceNumber b))"
    and "or_empty (js_or (customerName a) (customer a))
         = or_empty (js_or (customerName b) (customer b))"
    and "or_empty (billNumber a) = or_empty (billNumber b)"
    and "or_empty (gstin a) = or_empty (gstin b)"
  shows "generateNotificationHash a = generateNotificationHash b
     \<and> length (generateNotificationHash a) = 32"
  using assms by (simp add: generateNotificationHash_def hashString_def length_md5)

theorem generateNotificationHash_identity_fields_witness:
  "generateNotificationHash samplePayload
     = generateNotificationHash (readDoc\<lparr>title := Some ''Another title'', productId := Some [],
          invoiceNo := None, invoiceNumber := Some ''INV-001'', amount := Some 7\<rparr>)
   \<and> length (generateNotificationHash samplePayload) = 32"
  by (rule generateNotificationHash_identity_fields)
     (simp_all add: sample_defs or_empty_def js_or_def truthy_def)

subsection \<open>Recovery from a duplicate key (C6)\<close>

text \<open>
  C6. When the lookup finds nothing and the insert is refused by the unique index, the
  engine re-reads the record that holds the hash and returns it with action
  \<^verbatim>\<open>recovered\<close>, writing and emitting nothing; and no call of the engine ends in a
  duplicate-key error.
\<close>

theorem duplicate_key_is_recovered:
  "(find (recentWithHash (hashOf c) (thirtyDaysAgo now)) (docs s) = None
      \<and> insertDoc (newNotification (nextId s) now (hashOf c) c) s = Inl (DuplicateKey k)
    \<longrightarrow> (\<exists>e. find (\<lambda>d. notificationHash d = Some k) (docs s) = Some e
           \<and> notificationHash e = Some k
           \<and> upsertNotification now c io src s =
               Inr (\<lparr>notification = e, isNew = False, updated = False, action = Recovered\<rparr>,
                    s, [])))
   \<and> upsertNotification now c io src s \<noteq> Inl (DuplicateKey k')"
  using upsert_recovered[of c now s k io src] upsert_never_DuplicateKey[of now c io src s k']
  by blast

text \<open>A record older than thirty days holds the hash: the lookup misses it, the insert fails.\<close>

theorem duplicate_key_is_recovered_witness:
  "find (recentWithHash (hashOf samplePayload) (thirtyDaysAgo 2678400000)) (docs threeDocs) = None
   \<and> insertDoc (newNotification 3 2678400000 ''h1'' samplePayload) threeDocs
       = Inl (DuplicateKey ''h1'')
   \<and> upsertNotification 2678400000 samplePayload True ''page'' threeDocs
       = Inr (\<lparr>notification = unreadDoc, isNew = False, updated = False, action = Recovered\<rparr>,
              threeDocs, [])"
proof -
  have h: "hashOf samplePayload = ''h1''" "nextId threeDocs = 3"
    by (simp_all add: hashOf_def sample_defs)
  have a: "find (recentWithHash (hashOf samplePayload) (thirtyDaysAgo 2678400000)) (docs threeDocs)
           = None"
    by (simp add: h) (simp add: sample_defs recentWithHash_def thirtyDaysAgo_def)
  have b: "insertDoc (newNotification 3 2678400000 ''h1'' samplePayload) threeDocs
           = Inl (DuplicateKey ''h1'')"
    by (simp add: sample_defs insertDoc_def validateDoc_def required_def inEnum_def typeEnum_def
        priorityEnum_def colorEnum_def hashTaken_def castId_def)
  have f: "find (\<lambda>d. notificationHash d = Some ''h1'') (docs threeDocs) = Some unreadDoc"
    by (simp add: sample_defs)
  show ?thesis
    using duplicate_key_is_recovered[of samplePayload 2678400000 threeDocs "''h1''" True "''page''"] a b f h
    by auto
qed


subsection \<open>What the dedup lookup matches (C1)\<close>

lemma find_append_None:
  "find p xs = None \<Longrightarrow> find p (xs @ ys) = find p ys"
  by (induction xs) (auto split: if_splits)

lemma find_recent_Some:
  assumes "d \<in> set ds" and "notificationHash d = Some h" and "timestamp d = Some t"
    and "t0 \<le> t"
  shows "\<exists>e. find (recentWithHash h t0) ds = Some e"
proof (cases "find (recentWithHash h t0) ds")
  case None
  then have "\<not> recentWithHash h t0 d" using assms(1) by (auto simp: find_None_iff)
  then show ?thesis using assms(2-4) by (simp add: recentWithHash_def)
next
  case (Some e)
  then show ?thesis by blast
qed

lemma length_findOneAndUpdate:
  "findOneAndUpdate i now c e s = Inr (r, s') \<Longrightarrow> length (docs s') = length (docs s)"
  by (auto simp: findOneAndUpdate_def Let_def length_updateOne split: if_splits option.splits)

lemma upsert_match_not_created:
  assumes "find (recentWithHash (hashOf c) (thirtyDaysAgo now)) (docs s) = Some e"
  shows "actionOf (upsertNotification now c io src s) \<noteq> Some Created"
    and "length (docs (storeAfter s (upsertNotification now c io src s))) = length (docs s)"
  using assms
  by (auto simp: upsertNotification_def tryUpsert_def actionOf_def storeAfter_def
      split: if_splits sum.splits error.splits option.splits prod.splits
      dest: length_findOneAndUpdate)

text \<open>
  C1, as the code has it. The lookup of step 2 matches a stored notification that carries
  the hash and whose timestamp lies within the trailing 30 days, whether it is resolved or
  not, and it matches nothing older. So when a record with the hash lies in the window,
  resolved or unresolved, Upsert finds a match and creates nothing: the action is not
  \<^verbatim>\<open>created\<close> and the store holds as many records as before.
\<close>

theorem lookup_ignores_resolved_flag:
  "(find (recentWithHash (hashOf c) (thirtyDaysAgo now)) (docs s) = Some e
      \<longrightarrow> e \<in> set (docs s) \<and> notificationHash e = Some (hashOf c)
          \<and> (\<exists>t. timestamp e = Some t \<and> now - 30 * 86400000 \<le> t))
   \<and> (d \<in> set (docs s) \<and> notificationHash d = Some (hashOf c) \<and> timestamp d = Some t
        \<and> now - 30 * 86400000 \<le> t
      \<longrightarrow> (\<exists>e. find (recentWithHash (hashOf c) (thirtyDaysAgo now)) (docs s) = Some e)
          \<and> actionOf (upsertNotification now c io src s) \<noteq> Some Created
          \<and> length (docs (storeAfter s (upsertNotification now c io src s))) = length (docs s))"
proof (intro conjI impI)
  assume a: "find (recentWithHash (hashOf c) (thirtyDaysAgo now)) (docs s) = Some e"
  show "e \<in> set (docs s)" "notificationHash e = Some (hashOf c)"
    using find_recent_props(1,2)[OF a] by simp_all
  show "\<exists>t. timestamp e = Some t \<and> now - 30 * 86400000 \<le> t"
    using find_recent_props(3)[OF a] by (simp add: thirtyDaysAgo_def)
next
  assume a: "d \<in> set (docs s) \<and> notificationHash d = Some (hashOf c) \<and> timestamp d = Some t
        \<and> now - 30 * 86400000 \<le> t"
  then obtain e where e: "find (recentWithHash (hashOf c) (thirtyDaysAgo now)) (docs s) = Some e"
    using find_recent_Some[of d "docs s" "hashOf c" t "thirtyDaysAgo now"]
    by (auto simp: thirtyDaysAgo_def)
  show "\<exists>e. find (recentWithHash (hashOf c) (thirtyDaysAgo now)) (docs s) = Some e"
    using e by blast
  show "actionOf (upsertNotification now c io src s) \<noteq> Some Created"
    using upsert_match_not_created(1)[OF e] .
  show "length (docs (storeAfter s (upsertNotification now c io src s))) = length (docs s)"
    using upsert_match_not_created(2)[OF e] .
qed

lemmas upsert_eval = upsertNotification_def tryUpsert_def hashOf_def recentWithHash_def
  thirtyDaysAgo_def insertDoc_def validateDoc_def required_def inEnum_def typeEnum_def
  priorityEnum_def colorEnum_def hashTaken_def emit_def actionOf_def storeAfter_def eventsOf_def
  hasChanges_def findOneAndUpdate_def validateUpdate_def requiredIfSet_def applyUpdate_def upd_def
  castId_def Let_def

theorem lookup_ignores_resolved_flag_witness:
  "resolvedH1 \<in> set (docs oneResolved) \<and> isResolved resolvedH1 = Some True
   \<and> find (recentWithHash (hashOf samplePayload) (thirtyDaysAgo 2000)) (docs oneResolved)
       = Some resolvedH1
   \<and> actionOf (upsertNotification 2000 samplePayload True ''gst_service'' oneResolved)
       \<noteq> Some Created
   \<and> length (docs (storeAfter oneResolved
         (upsertNotification 2000 samplePayload True ''gst_service'' oneResolved))) = 1"
proof -
  have f: "find (recentWithHash (hashOf samplePayload) (thirtyDaysAgo 2000)) (docs oneResolved)
           = Some resolvedH1"
    by (simp add: oneResolved_def resolvedH1_def sample_defs hashOf_def recentWithHash_def
        thirtyDaysAgo_def)
  have d: "resolvedH1 \<in> set (docs oneResolved) \<and> isResolved resolvedH1 = Some True
      \<and> notificationHash resolvedH1 = Some (hashOf samplePayload)
      \<and> timestamp resolvedH1 = Some 1000 \<and> (2000::int) - 30 * 86400000 \<le> 1000
      \<and> length (docs oneResolved) = 1"
    by (simp add: oneResolved_def resolvedH1_def sample_defs hashOf_def)
  show ?thesis
    using lookup_ignores_resolved_flag[of samplePayload 2000 oneResolved resolvedH1 resolvedH1
        1000 True "''gst_service''"] f d
    by simp
qed

text \<open>
  The store holds one record with the hash, resolved, one second old. C1 expects
  \<^verbatim>\<open>created\<close> and a second record; the engine matches the resolved record, updates it in
  place and so reopens it.
\<close>

theorem lookup_only_unresolved_counterexample:
  "map isResolved (docs oneResolved) = [Some True]
   \<and> map notificationHash (docs oneResolved) = [Some (hashOf samplePayload)]
   \<and> map timestamp (docs oneResolved) = [Some 1000]
   \<and> actionOf (upsertNotification 2000 samplePayload True ''gst_service'' oneResolved)
       = Some Updated
   \<and> map isResolved (docs (storeAfter oneResolved
         (upsertNotification 2000 samplePayload True ''gst_service'' oneResolved))) = [Some False]"
  by (simp add: oneResolved_def resolvedH1_def sample_defs upsert_eval)


subsection \<open>Two identical calls in succession (C3)\<close>

lemma find_recent_fresh:
  assumes "\<not> hashTaken ds h" and "notificationHash d = Some h" and "timestamp d = Some t"
    and "t0 \<le> t"
  shows "find (recentWithHash h t0) (ds @ [d]) = Some d"
proof -
  have "find (recentWithHash h t0) ds = None"
    using assms(1) by (auto simp: find_None_iff hashTaken_def recentWithHash_def)
  then show ?thesis
    using assms(2-4) by (simp add: find_append_None recentWithHash_def)
qed

lemma newNotification_no_changes:
  assumes "priority c \<noteq> None" and "color c \<noteq> None" and "isRead c \<noteq> None"
    and "isResolved c = Some False"
  shows "\<not> hasChanges (newNotification i now h c) c"
  using assms by (auto simp: hasChanges_def newNotification_def dflt_def)

text \<open>
  The payloads of the two generators supply \<^verbatim>\<open>isRead: false\<close> and \<^verbatim>\<open>isResolved: false\<close>
  (and priority and color): compared with the record created from them, nothing has
  changed, so a repeated scan is skipped as unchanged.
\<close>

lemma generator_payloads_no_changes:
  "\<not> hasChanges (newNotification i t h (gstData now tax)) (gstData now tax)"
  "\<not> hasChanges (newNotification i t h (paymentData now env ord)) (paymentData now env ord)"
  by (rule newNotification_no_changes; simp add: gstData_def paymentData_def Let_def emptyData_def)+

text \<open>
  The payloads of the stock check supply neither \<^verbatim>\<open>isRead\<close> nor \<^verbatim>\<open>isResolved\<close>: compared
  with any stored record, whose \<^verbatim>\<open>isRead\<close> is defined, they have always changed.
\<close>

lemma stock_payloads_always_change:
  "isRead e \<noteq> None \<Longrightarrow> hasChanges e (outOfStockData b)"
  "isRead e \<noteq> None \<Longrightarrow> hasChanges e (lowStockData b cs)"
  by (simp_all add: hasChanges_def outOfStockData_def lowStockData_def emptyData_def)

lemma upsert_repeat_unchanged:
  assumes "validateDoc c" and "priority c \<noteq> None" and "color c \<noteq> None"
    and "isRead c \<noteq> None" and "isResolved c = Some False"
    and "\<not> hashTaken (docs s) (hashOf c)"
    and "now2 - 30 * 86400000 \<le> now1"
    and "s1 = storeAfter s (upsertNotification now1 c True src s)"
  shows "actionOf (upsertNotification now1 c True src s) = Some Created
     \<and> actionOf (upsertNotification now2 c True src s1) = Some Unchanged
     \<and> storeAfter s1 (upsertNotification now2 c True src s1) = s1
     \<and> eventsOf (upsertNotification now2 c True src s1) = []
     \<and> length (eventsOf (upsertNotification now1 c True src s)
                @ eventsOf (upsertNotification now2 c True src s1)) = 1"
proof -
  let ?d = "newNotification (nextId s) now1 (hashOf c) c"
  have none: "find (recentWithHash (hashOf c) (thirtyDaysAgo now1)) (docs s) = None"
    using assms(6) by (auto simp: find_None_iff hashTaken_def recentWithHash_def)
  note first = upsert_created[OF none assms(1) assms(6), of True src]
  have s1: "s1 = s\<lparr>docs := docs s @ [?d], nextId := Suc (nextId s)\<rparr>"
    using assms(8) first by (simp add: storeAfter_def)
  have look: "find (recentWithHash (hashOf c) (thirtyDaysAgo now2)) (docs s1) = Some ?d"
    using find_recent_fresh[OF assms(6), of ?d now1 "thirtyDaysAgo now2"] assms(7)
    by (simp add: s1 thirtyDaysAgo_def) (simp add: newNotification_def)
  note second = upsert_unchanged[OF look newNotification_no_changes[OF assms(2-5)], of True src]
  show ?thesis
    using first second by (simp add: actionOf_def storeAfter_def eventsOf_def emit_def)
qed

text \<open>
  C3. Two calls of Upsert in succession with identical tracked fields, on a store without
  the hash, are to answer \<^verbatim>\<open>created\<close> and then \<^verbatim>\<open>unchanged\<close>, with one broadcast event in
  all. The engine does so for the payloads of the generators, and it is written to do so
  for every payload (it tests whether the data has changed and skips an unchanged
  notification; the stock check has an answer for an alert that already exists). For the
  payload the stock check itself builds it does not: the payload carries neither
  \<^verbatim>\<open>isRead\<close> nor \<^verbatim>\<open>isResolved\<close>, the stored \<^verbatim>\<open>false\<close> differs from the payload's
  \<^verbatim>\<open>undefined\<close>, and the second call answers \<^verbatim>\<open>updated\<close>, writes the record and emits a
  second event. Here a product is checked twice while it is sold out.
\<close>

theorem stock_payload_repeat_is_updated:
  "actionOf (upsertNotification 1000 (outOfStockData soldOut) True ''stock_service'' emptyStore)
     = Some Created
   \<and> actionOf (upsertNotification 2000 (outOfStockData soldOut) True ''stock_service''
        (storeAfter emptyStore
           (upsertNotification 1000 (outOfStockData soldOut) True ''stock_service'' emptyStore)))
     = Some Updated
   \<and> length (eventsOf (upsertNotification 1000 (outOfStockData soldOut) True ''stock_service''
                 emptyStore)
        @ eventsOf (upsertNotification 2000 (outOfStockData soldOut) True ''stock_service''
            (storeAfter emptyStore
               (upsertNotification 1000 (outOfStockData soldOut) True ''stock_service''
                  emptyStore)))) = 2
   \<and> alertAction (checkStock 1000 soldOut True emptyStore) = Some Created
   \<and> alertAction (checkStock 2000 soldOut True soldOutOnce) = Some Updated
   \<and> length (snd (snd (checkStock 1000 soldOut True emptyStore))
        @ snd (snd (checkStock 2000 soldOut True soldOutOnce))) = 2"
  by (simp add: soldOutOnce_def alertAction_def checkStock_def outOfStockData_def soldOut_def
      interp_def sample_defs upsert_eval castable_def penId_cast)


subsection \<open>An update of a matched record (C4)\<close>

text \<open>
  C4, as the code has it. When the lookup finds a match, a tracked field differs and the
  payload passes the update validators (and does not carry an empty \<^verbatim>\<open>notificationHash\<close>),
  the action is \<^verbatim>\<open>updated\<close> and the record is changed in place: \<^verbatim>\<open>lastUpdated\<close> becomes
  the current time, and \<^verbatim>\<open>timestamp\<close>, the date the 30-day window is measured on, is
  reset to the current time unless the caller sets \<^verbatim>\<open>preserveTimestamp\<close>, in which case
  it is kept. The store's own \<^verbatim>\<open>createdAt\<close> is kept either way.
\<close>

theorem upsert_update_resets_timestamp:
  assumes "find (recentWithHash (hashOf c) (thirtyDaysAgo now)) (docs s) = Some e"
    and "hasChanges e c" and "validateUpdate c"
    and "distinct (map oid (docs s))"
    and "notificationHash c \<noteq> Some []"
  shows "actionOf (upsertNotification now c io src s) = Some Updated
     \<and> (\<exists>u. notificationOf (upsertNotification now c io src s) = Some u
           \<and> find (\<lambda>d. oid d = oid e)
                (docs (storeAfter s (upsertNotification now c io src s))) = Some u
           \<and> oid u = oid e
           \<and> lastUpdated u = Some now
           \<and> timestamp u = (if preserveTimestamp c then timestamp e else Some now)
           \<and> createdAt u = createdAt e)"
proof -
  let ?u = "applyUpdate now c e e"
  note up = upsert_updated[OF assms, of io src]
  have f: "find (\<lambda>d. oid d = oid e) (docs s) = Some e"
    using find_by_oid[OF assms(4) find_recent_props(1)[OF assms(1)]] .
  have oidu: "oid ?u = oid e" by (simp add: applyUpdate_def)
  have f': "find (\<lambda>d. oid d = oid e)
              (updateOne (\<lambda>x. oid x = oid e) (\<lambda>_. ?u) (docs s)) = Some ?u"
    using find_updateOne_same[OF f, of "\<lambda>_. ?u"] oidu by simp
  obtain t where t: "timestamp e = Some t"
    using find_recent_props(3)[OF assms(1)] by blast
  have ts: "timestamp ?u = (if preserveTimestamp c then timestamp e else Some now)"
    by (simp add: applyUpdate_def upd_def t)
  have rest: "lastUpdated ?u = Some now" "createdAt ?u = createdAt e"
    by (simp_all add: applyUpdate_def)
  show ?thesis
    using up f' oidu ts rest
    by (simp add: actionOf_def notificationOf_def storeAfter_def)
qed

theorem upsert_update_resets_timestamp_witness:
  "actionOf (upsertNotification 5000 (samplePayload\<lparr>currentStock := Some 3,
       preserveTimestamp := True\<rparr>) True ''page'' oneUnread) = Some Updated
   \<and> (\<exists>u. find (\<lambda>d. oid d = 0)
             (docs (storeAfter oneUnread (upsertNotification 5000
                (samplePayload\<lparr>currentStock := Some 3, preserveTimestamp := True\<rparr>) True ''page''
                oneUnread))) = Some u
         \<and> lastUpdated u = Some 5000 \<and> timestamp u = Some 1000 \<and> createdAt u = 1000)"
proof -
  let ?c = "samplePayload\<lparr>currentStock := Some 3, preserveTimestamp := True\<rparr>"
  have a: "find (recentWithHash (hashOf ?c) (thirtyDaysAgo 5000)) (docs oneUnread) = Some unreadDoc"
    by (simp add: oneUnread_def sample_defs hashOf_def recentWithHash_def thirtyDaysAgo_def)
  have b: "hasChanges unreadDoc ?c" "validateUpdate ?c" "distinct (map oid (docs oneUnread))"
    "notificationHash ?c \<noteq> Some []"
    by (simp_all add: oneUnread_def sample_defs hasChanges_def validateUpdate_def requiredIfSet_def
        inEnum_def typeEnum_def priorityEnum_def colorEnum_def)
  have c: "oid unreadDoc = 0" "timestamp unreadDoc = Some 1000" "createdAt unreadDoc = 1000"
    "preserveTimestamp ?c"
    by (simp_all add: sample_defs)
  show ?thesis
    using upsert_update_resets_timestamp[OF a b, of True "''page''"] c by auto
qed

text \<open>
  The stored record dates from time 1000. A payload with a changed \<^verbatim>\<open>currentStock\<close> that
  asks for nothing about timestamps is upserted at time 5000: the record is updated and its
  \<^verbatim>\<open>timestamp\<close> is now 5000, not preserved.
\<close>

theorem upsert_preserves_timestamp_counterexample:
  "\<not> preserveTimestamp (samplePayload\<lparr>currentStock := Some 3\<rparr>)
   \<and> map timestamp (docs oneUnread) = [Some 1000]
   \<and> actionOf (upsertNotification 5000 (samplePayload\<lparr>currentStock := Some 3\<rparr>) True ''page''
        oneUnread) = Some Updated
   \<and> map timestamp (docs (storeAfter oneUnread
        (upsertNotification 5000 (samplePayload\<lparr>currentStock := Some 3\<rparr>) True ''page''
           oneUnread))) = [Some 5000]"
  by (simp add: oneUnread_def sample_defs upsert_eval)


subsection \<open>The stock check: sold out, then restocked (C7)\<close>

lemma validate_outOfStockData:
  "castable (body_productId b) \<Longrightarrow> validateDoc (outOfStockData b)"
  "castable (body_productId b) \<Longrightarrow> validateUpdate (outOfStockData b)"
  "notificationHash (outOfStockData b) = None"
  by (simp_all add: outOfStockData_def emptyData_def validateDoc_def validateUpdate_def
      required_def requiredIfSet_def inEnum_def typeEnum_def priorityEnum_def colorEnum_def
      interp_def split: option.splits)

lemma find_mem_oid: "find (\<lambda>d. oid d = i) ds = Some d \<Longrightarrow> d \<in> set ds \<and> oid d = i"
  by (auto simp: find_Some_iff)

lemma find_oid_of_mem: "e \<in> set ds \<Longrightarrow> \<exists>d. find (\<lambda>d. oid d = oid e) ds = Some d"
  by (cases "find (\<lambda>d. oid d = oid e) ds") (auto simp: find_None_iff)

lemma upsert_outOfStock:
  assumes cast: "castable (body_productId b)"
  shows "\<exists>r s' evs. upsertNotification now (outOfStockData b) io src s = Inr (r, s', evs)
     \<and> (action r = Created \<or> action r = Updated
          \<longrightarrow> ntype (notification r) = Some ''Out of Stock''
              \<and> priority (notification r) = Some ''high''
              \<and> notification r \<in> set (docs s'))"
proof (cases "find (recentWithHash (hashOf (outOfStockData b)) (thirtyDaysAgo now)) (docs s)")
  case None
  show ?thesis
  proof (cases "hashTaken (docs s) (hashOf (outOfStockData b))")
    case False
    show ?thesis
      using upsert_created[OF None validate_outOfStockData(1)[OF cast] False, of io src]
      by (simp add: newNotification_def outOfStockData_def dflt_def)
  next
    case True
    then have "insertDoc (newNotification (nextId s) now (hashOf (outOfStockData b))
                 (outOfStockData b)) s = Inl (DuplicateKey (hashOf (outOfStockData b)))"
      by (simp add: insertDoc_def validateDoc_newNotification validate_outOfStockData(1)[OF cast])
         (simp add: newNotification_def)
    from upsert_recovered[OF None this, of io src] show ?thesis by auto
  qed
next
  case (Some e)
  show ?thesis
  proof (cases "hasChanges e (outOfStockData b)")
    case False
    show ?thesis using upsert_unchanged[OF Some False, of io src] by simp
  next
    case True
    obtain d where d: "find (\<lambda>d. oid d = oid e) (docs s) = Some d"
      using find_oid_of_mem[OF find_recent_props(1)[OF Some]] by blast
    let ?u = "applyUpdate now (outOfStockData b) e d"
    have fu: "findOneAndUpdate (oid e) now (outOfStockData b) e s =
        Inr (Some ?u, s\<lparr>docs := updateOne (\<lambda>x. oid x = oid e) (\<lambda>_. ?u) (docs s)\<rparr>)"
      using d validate_outOfStockData(2)[OF cast] validate_outOfStockData(3)[of b]
      by (simp add: findOneAndUpdate_def Let_def)
    have mem: "?u \<in> set (updateOne (\<lambda>x. oid x = oid e) (\<lambda>_. ?u) (docs s))"
      using find_updateOne_mem[OF d, of "\<lambda>_. ?u"] by simp
    have props: "ntype ?u = Some ''Out of Stock''" "priority ?u = Some ''high''"
      by (simp_all add: applyUpdate_def outOfStockData_def upd_def)
    show ?thesis
      using Some True fu mem props
      by (simp add: upsertNotification_def tryUpsert_def)
  qed
qed

lemma checkStock_sufficient:
  assumes "body_currentStock b = Some cs" and "body_minStock b = Some ms"
    and "cs \<noteq> 0" and "ms < cs" and "castable (body_productId b)"
  shows "checkStock now b io s =
     (let existingNotifications =
            filter (\<lambda>d. stockAlertOf (castId (body_productId b)) d \<and> isResolved d = Some False)
              (docs s)
      in if existingNotifications \<noteq> [] then
           (let remaining = deleteMany (stockAlertOf (castId (body_productId b))) (docs s);
                deletedCount = length (docs s) - length remaining
            in (Ok (alerts_deleted deletedCount), s\<lparr>docs := remaining\<rparr>,
                emit io (map (\<lambda>n. notification_deleted (oid n) (body_productId b)
                                      (body_productName b) (ntype n) (notificationHash n)
                                      ''stock_service'') existingNotifications
                         @ [stock_updated (body_productId b) (body_productName b) cs ms
                              deletedCount])))
         else (Ok no_alert_needed, s, []))"
  using assms by (simp add: checkStock_def)

text \<open>
  C7, as the code has it. A stock check with \<^verbatim>\<open>currentStock = 0\<close> (for a product id the
  store can cast) upserts a notification of type Out of Stock with priority high: the
  record it creates or updates has that type and priority and is stored. A stock check for
  a product with a non-zero \<^verbatim>\<open>currentStock\<close> above \<^verbatim>\<open>minStock\<close> deletes every stock
  notification of the product, resolved ones included, and marks nothing resolved, provided
  at least one of them is unresolved; when none is unresolved it answers
  \<^verbatim>\<open>no_alert_needed\<close> and deletes nothing.
\<close>

theorem stock_check_deletes_when_unresolved:
  "(body_currentStock b0 = Some 0 \<and> body_minStock b0 = Some m0 \<and> castable (body_productId b0)
      \<longrightarrow> (\<exists>r s1 evs. checkStock now b0 io s = (Ok (alert r), s1, evs)
             \<and> (action r = Created \<or> action r = Updated
                  \<longrightarrow> ntype (notification r) = Some ''Out of Stock''
                      \<and> priority (notification r) = Some ''high''
                      \<and> notification r \<in> set (docs s1))))
   \<and> (body_currentStock b = Some cs \<and> body_minStock b = Some ms \<and> cs \<noteq> 0 \<and> ms < cs
        \<and> castable (body_productId b)
        \<and> (\<exists>d \<in> set (docs s'). stockAlertOf (castId (body_productId b)) d
                                 \<and> isResolved d = Some False)
      \<longrightarrow> (\<exists>n evs. checkStock now' b io s'
                     = (Ok (alerts_deleted n),
                        s'\<lparr>docs := filter (\<lambda>d. \<not> stockAlertOf (castId (body_productId b)) d)
                                     (docs s')\<rparr>,
                        evs)))
   \<and> (body_currentStock b = Some cs \<and> body_minStock b = Some ms \<and> cs \<noteq> 0 \<and> ms < cs
        \<and> castable (body_productId b)
        \<and> (\<forall>d \<in> set (docs s''). stockAlertOf (castId (body_productId b)) d
                                  \<longrightarrow> isResolved d \<noteq> Some False)
      \<longrightarrow> checkStock now' b io s'' = (Ok no_alert_needed, s'', []))"
proof (intro conjI impI)
  assume a: "body_currentStock b0 = Some 0 \<and> body_minStock b0 = Some m0
             \<and> castable (body_productId b0)"
  then have cast: "castable (body_productId b0)" by simp
  from upsert_outOfStock[OF cast, of now io "''stock_service''" s]
  obtain r s1 evs where
    r: "upsertNotification now (outOfStockData b0) io ''stock_service'' s = Inr (r, s1, evs)"
    and p: "action r = Created \<or> action r = Updated
          \<longrightarrow> ntype (notification r) = Some ''Out of Stock''
              \<and> priority (notification r) = Some ''high''
              \<and> notification r \<in> set (docs s1)"
    by blast
  have "checkStock now b0 io s = (Ok (alert r), s1, evs)"
    using a r by (simp add: checkStock_def)
  then show "\<exists>r s1 evs. checkStock now b0 io s = (Ok (alert r), s1, evs)
             \<and> (action r = Created \<or> action r = Updated
                  \<longrightarrow> ntype (notification r) = Some ''Out of Stock''
                      \<and> priority (notification r) = Some ''high''
                      \<and> notification r \<in> set (docs s1))"
    using p by blast
next
  assume a: "body_currentStock b = Some cs \<and> body_minStock b = Some ms \<and> cs \<noteq> 0 \<and> ms < cs
        \<and> castable (body_productId b)
        \<and> (\<exists>d \<in> set (docs s'). stockAlertOf (castId (body_productId b)) d
                                 \<and> isResolved d = Some False)"
  then have ne: "filter (\<lambda>d. stockAlertOf (castId (body_productId b)) d
                             \<and> isResolved d = Some False) (docs s') \<noteq> []"
    by (auto simp: filter_empty_conv)
  show "\<exists>n evs. checkStock now' b io s'
                     = (Ok (alerts_deleted n),
                        s'\<lparr>docs := filter (\<lambda>d. \<not> stockAlertOf (castId (body_productId b)) d)
                                     (docs s')\<rparr>,
                        evs)"
    using a ne checkStock_sufficient[of b cs ms now' io s']
    by (simp add: Let_def deleteMany_def)
next
  assume a: "body_currentStock b = Some cs \<and> body_minStock b = Some ms \<and> cs \<noteq> 0 \<and> ms < cs
        \<and> castable (body_productId b)
        \<and> (\<forall>d \<in> set (docs s''). stockAlertOf (castId (body_productId b)) d
                                  \<longrightarrow> isResolved d \<noteq> Some False)"
  then have e: "filter (\<lambda>d. stockAlertOf (castId (body_productId b)) d
                            \<and> isResolved d = Some False) (docs s'') = []"
    by (auto simp: filter_empty_conv)
  show "checkStock now' b io s'' = (Ok no_alert_needed, s'', [])"
    using a e checkStock_sufficient[of b cs ms now' io s''] by (simp add: Let_def)
qed

lemmas stock_eval = checkStock_def outOfStockData_def soldOut_def restocked_def interp_def
  stockAlertOf_def stockTypes_def deleteMany_def deletedEvent_def resolveNotification_def
  js_or_def truthy_def or_empty_def castable_def penId_cast

theorem stock_check_deletes_when_unresolved_witness:
  "(\<exists>r s1 evs. checkStock 1000 soldOut True emptyStore = (Ok (alert r), s1, evs)
      \<and> action r = Created \<and> ntype (notification r) = Some ''Out of Stock''
      \<and> priority (notification r) = Some ''high'' \<and> notification r \<in> set (docs s1))
   \<and> (\<exists>n evs. checkStock 4000 restocked True soldOutOnce
                 = (Ok (alerts_deleted n), soldOutOnce\<lparr>docs := []\<rparr>, evs))
   \<and> checkStock 4000 restocked True soldOutAgain = (Ok no_alert_needed, soldOutAgain, [])"
proof -
  have b0: "body_currentStock soldOut = Some 0 \<and> body_minStock soldOut = Some 10
            \<and> castable (body_productId soldOut)"
    by (simp add: soldOut_def castable_def penId_cast)
  have c: "\<exists>r s1 evs. checkStock 1000 soldOut True emptyStore = (Ok (alert r), s1, evs)
            \<and> action r = Created"
    by (simp add: stock_eval sample_defs upsert_eval)
  have b1: "body_currentStock restocked = Some 50 \<and> body_minStock restocked = Some 10
            \<and> (50::int) \<noteq> 0 \<and> (10::int) < 50 \<and> castable (body_productId restocked)"
    by (simp add: restocked_def castable_def penId_cast)
  have once: "\<exists>d \<in> set (docs soldOutOnce).
                stockAlertOf (castId (body_productId restocked)) d \<and> isResolved d = Some False"
    "filter (\<lambda>d. \<not> stockAlertOf (castId (body_productId restocked)) d) (docs soldOutOnce) = []"
    by (simp_all add: soldOutOnce_def stock_eval sample_defs upsert_eval)
  have again: "\<forall>d \<in> set (docs soldOutAgain).
                 stockAlertOf (castId (body_productId restocked)) d
                 \<longrightarrow> isResolved d \<noteq> Some False"
    by (simp add: soldOutAgain_def soldOutResolved_def stock_eval sample_defs upsert_eval)
  show ?thesis
    using stock_check_deletes_when_unresolved[of soldOut 10 1000 True emptyStore restocked 50 10
        soldOutOnce 4000 soldOutAgain] b0 b1 c once again
    by (auto simp del: split_paired_Ex)
qed

text \<open>
  After the alert of a sold-out product was resolved by hand, a stock check finds the
  product sold out again: the engine matches the resolved record and updates it, and it
  stays resolved. The next stock check finds the product restocked and deletes nothing: the
  Out of Stock record of the product is still stored.
\<close>

theorem stock_check_deletes_counterexample:
  "map isResolved (docs soldOutResolved) = [Some True]
   \<and> alertAction (checkStock 1000 soldOut True emptyStore) = Some Created
   \<and> alertAction (checkStock 3000 soldOut True soldOutResolved) = Some Updated
   \<and> map ntype (docs soldOutAgain) = [Some ''Out of Stock'']
   \<and> map productId (docs soldOutAgain) = [Some penId]
   \<and> map isResolved (docs soldOutAgain) = [Some True]
   \<and> checkStock 4000 restocked True soldOutAgain = (Ok no_alert_needed, soldOutAgain, [])"
  by (simp add: soldOutAgain_def soldOutResolved_def alertAction_def stock_eval sample_defs
      upsert_eval)


subsection \<open>The invariant of the store\<close>

lemma hashes_Nil: "hashes [] = []"
  by (simp add: hashes_def)

lemma hashes_Cons:
  "hashes (d # ds) = (case notificationHash d of None \<Rightarrow> hashes ds | Some h \<Rightarrow> h # hashes ds)"
  by (simp add: hashes_def split: option.splits)

lemma set_hashes: "set (hashes ds) = {h. hashTaken ds h}"
  by (induction ds) (auto simp: hashes_Nil hashes_Cons hashTaken_def split: option.splits)

lemma hashes_append: "hashes (xs @ ys) = hashes xs @ hashes ys"
  by (induction xs) (simp_all add: hashes_Nil hashes_Cons split: option.splits)

lemma distinct_hashes_filter: "distinct (hashes ds) \<Longrightarrow> distinct (hashes (filter p ds))"
proof (induction ds)
  case Nil
  then show ?case by simp
next
  case (Cons d ds)
  have sub: "set (hashes (filter p ds)) \<subseteq> set (hashes ds)"
    by (auto simp: set_hashes hashTaken_def)
  show ?case using Cons sub
    by (auto simp: hashes_Cons split: option.splits)
qed

lemma distinct_hashes_remove1: "distinct (hashes ds) \<Longrightarrow> distinct (hashes (remove1 d ds))"
proof (induction ds)
  case Nil
  then show ?case by simp
next
  case (Cons x ds)
  have sub: "set (hashes (remove1 d ds)) \<subseteq> set (hashes ds)"
    using set_remove1_subset[of d ds] by (auto simp: set_hashes hashTaken_def)
  show ?case using Cons sub
    by (auto simp: hashes_Cons split: option.splits)
qed

lemma hashes_cong:
  "map notificationHash xs = map notificationHash ys \<Longrightarrow> hashes xs = hashes ys"
proof (induction xs arbitrary: ys)
  case Nil
  then show ?case by simp
next
  case (Cons x xs)
  then obtain y ys' where ys: "ys = y # ys'" by (cases ys) auto
  with Cons show ?case by (auto simp: hashes_Cons split: option.splits)
qed

lemma map_updateMany_inv: "(\<And>x. g (f x) = g x) \<Longrightarrow> map g (updateMany p f xs) = map g xs"
  by (induction xs) (simp_all add: updateMany_def)

lemma set_updateOne_const:
  "set (updateOne p (\<lambda>_. d') ds) \<subseteq> insert d' (set ds)"
  by (induction ds) auto

lemma hashTaken_updateOne:
  "hashTaken (updateOne p (\<lambda>_. d') ds) h \<Longrightarrow> hashTaken ds h \<or> notificationHash d' = Some h"
  using set_updateOne_const[of p d' ds] by (auto simp: hashTaken_def)

lemma distinct_hashes_updateOne:
  assumes "distinct (hashes ds)"
    and "\<And>h. notificationHash d' = Some h \<Longrightarrow>
           \<not> hashTaken ds h \<or> (\<exists>d. find p ds = Some d \<and> notificationHash d = Some h)"
  shows "distinct (hashes (updateOne p (\<lambda>_. d') ds))"
  using assms
proof (induction ds)
  case Nil
  then show ?case by simp
next
  case (Cons x ds)
  show ?case
  proof (cases "p x")
    case True
    show ?thesis
    proof (cases "notificationHash d'")
      case None
      then show ?thesis using Cons.prems(1) True
        by (auto simp: hashes_Cons split: option.splits)
    next
      case (Some h)
      from Cons.prems(2)[OF Some] True
      have "\<not> hashTaken (x # ds) h \<or> notificationHash x = Some h" by auto
      then have "h \<notin> set (hashes ds)"
        using Cons.prems(1) by (auto simp: set_hashes hashTaken_def hashes_Cons)
      then show ?thesis using Cons.prems(1) True Some
        by (auto simp: hashes_Cons split: option.splits)
    qed
  next
    case False
    have d: "distinct (hashes ds)"
      using Cons.prems(1) by (auto simp: hashes_Cons split: option.splits)
    have c: "\<And>h. notificationHash d' = Some h \<Longrightarrow>
           \<not> hashTaken ds h \<or> (\<exists>d. find p ds = Some d \<and> notificationHash d = Some h)"
      using Cons.prems(2) False by (auto simp: hashTaken_def)
    have ih: "distinct (hashes (updateOne p (\<lambda>_. d') ds))"
      using Cons.IH[OF d c] .
    show ?thesis
    proof (cases "notificationHash x")
      case None
      then show ?thesis using ih False by (simp add: hashes_Cons)
    next
      case (Some hx)
      have "hx \<notin> set (hashes (updateOne p (\<lambda>_. d') ds))"
      proof
        assume "hx \<in> set (hashes (updateOne p (\<lambda>_. d') ds))"
        then have "hashTaken (updateOne p (\<lambda>_. d') ds) hx" by (simp add: set_hashes)
        from hashTaken_updateOne[OF this]
        show False
        proof
          assume "hashTaken ds hx"
          then show False using Cons.prems(1) Some by (auto simp: hashes_Cons set_hashes)
        next
          assume a: "notificationHash d' = Some hx"
          from Cons.prems(2)[OF a] False Some
          have "\<not> hashTaken (x # ds) hx \<or> (\<exists>d. find p ds = Some d \<and> notificationHash d = Some hx)"
            by auto
          then show False
            using Some Cons.prems(1)
            by (auto simp: hashTaken_def hashes_Cons set_hashes find_Some_iff)
        qed
      qed
      then show ?thesis using ih False Some by (simp add: hashes_Cons)
    qed
  qed
qed


lemma map_oid_updateOne_const:
  "oid d' = i \<Longrightarrow> map oid (updateOne (\<lambda>x. oid x = i) (\<lambda>_. d') ds) = map oid ds"
  by (induction ds) auto

lemma oid_bound_cong:
  assumes "map oid ds = map oid ds0" and "\<forall>d \<in> set ds0. oid d < n"
  shows "\<forall>d \<in> set ds. oid d < (n::nat)"
proof
  fix d assume "d \<in> set ds"
  then have "oid d \<in> set (map oid ds)" by simp
  then have "oid d \<in> set (map oid ds0)" using assms(1) by simp
  then obtain d0 where "d0 \<in> set ds0" "oid d0 = oid d" by auto
  then show "oid d < n" using assms(2) by auto
qed

lemma distinct_map_remove1_oid:
  "distinct (map f xs) \<Longrightarrow> distinct (map f (remove1 x xs))"
proof (induction xs)
  case Nil
  then show ?case by simp
next
  case (Cons y ys)
  then show ?case using set_remove1_subset[of x ys] by auto
qed

lemma wellFormed_same_keys:
  assumes "wellFormed s" and "map oid ds = map oid (docs s)"
    and "map notificationHash ds = map notificationHash (docs s)"
  shows "wellFormed (s\<lparr>docs := ds\<rparr>)"
proof -
  have "\<forall>d \<in> set ds. oid d < nextId s"
    using oid_bound_cong[OF assms(2)] assms(1) by (simp add: wellFormed_def)
  then show ?thesis
    using assms hashes_cong[OF assms(3)] by (simp add: wellFormed_def)
qed

lemma wellFormed_filter: "wellFormed s \<Longrightarrow> wellFormed (s\<lparr>docs := filter p (docs s)\<rparr>)"
  by (auto simp: wellFormed_def distinct_map_filter distinct_hashes_filter)

lemma wellFormed_remove1: "wellFormed s \<Longrightarrow> wellFormed (s\<lparr>docs := remove1 d (docs s)\<rparr>)"
proof -
  assume w: "wellFormed s"
  have "distinct (map oid (remove1 d (docs s)))"
    using w by (simp add: wellFormed_def distinct_map_remove1_oid)
  moreover have "\<forall>x \<in> set (remove1 d (docs s)). oid x < nextId s"
    using w set_remove1_subset[of d "docs s"] by (auto simp: wellFormed_def)
  ultimately show ?thesis
    using w by (simp add: wellFormed_def distinct_hashes_remove1)
qed

lemma wellFormed_append:
  assumes "wellFormed s" and "oid d = nextId s"
    and "\<And>h. notificationHash d = Some h \<Longrightarrow> \<not> hashTaken (docs s) h"
  shows "wellFormed (s\<lparr>docs := docs s @ [d], nextId := Suc (nextId s)\<rparr>)"
  using assms
  by (auto simp: wellFormed_def hashes_append hashes_Cons hashes_Nil set_hashes less_Suc_eq
      split: option.splits)

lemma wellFormed_replace:
  assumes "wellFormed s" and "e \<in> set (docs s)" and "oid d' = oid e"
    and "\<And>h. notificationHash d' = Some h \<Longrightarrow>
           \<not> hashTaken (docs s) h \<or> notificationHash e = Some h"
  shows "wellFormed (s\<lparr>docs := updateOne (\<lambda>x. oid x = oid e) (\<lambda>_. d') (docs s)\<rparr>)"
proof -
  have ids: "distinct (map oid (docs s))" using assms(1) by (simp add: wellFormed_def)
  have f: "find (\<lambda>d. oid d = oid e) (docs s) = Some e"
    using find_by_oid[OF ids assms(2)] .
  have m: "map oid (updateOne (\<lambda>x. oid x = oid e) (\<lambda>_. d') (docs s)) = map oid (docs s)"
    using map_oid_updateOne_const[OF assms(3)] .
  have b: "\<forall>d \<in> set (updateOne (\<lambda>x. oid x = oid e) (\<lambda>_. d') (docs s)). oid d < nextId s"
    using oid_bound_cong[OF m] assms(1) by (simp add: wellFormed_def)
  have h: "distinct (hashes (updateOne (\<lambda>x. oid x = oid e) (\<lambda>_. d') (docs s)))"
    using distinct_hashes_updateOne[of "docs s" d' "\<lambda>x. oid x = oid e"] assms(1,4) f
    by (auto simp: wellFormed_def)
  show ?thesis using ids m b h by (simp add: wellFormed_def)
qed


lemma wellFormed_insertDoc:
  "wellFormed s \<Longrightarrow> insertDoc d s = Inr s' \<Longrightarrow> oid d = nextId s \<Longrightarrow> wellFormed s'"
  by (auto simp: insertDoc_def split: if_splits option.splits intro!: wellFormed_append)

lemma applyUpdate_keys:
  "oid (applyUpdate now c e d) = oid d"
  "notificationHash (applyUpdate now c e d) = upd (notificationHash c) (notificationHash d)"
  by (simp_all add: applyUpdate_def)

lemma findOneAndUpdate_Some:
  assumes "find (\<lambda>d. oid d = i) (docs s) = Some d"
    and "findOneAndUpdate i now c e s = Inr (r, s')"
  shows "s' = s\<lparr>docs := updateOne (\<lambda>x. oid x = i) (\<lambda>_. applyUpdate now c e d) (docs s)\<rparr>"
    and "\<And>h. notificationHash c = Some h \<Longrightarrow>
           notificationHash d = Some h \<or> \<not> hashTaken (docs s) h"
proof -
  show "s' = s\<lparr>docs := updateOne (\<lambda>x. oid x = i) (\<lambda>_. applyUpdate now c e d) (docs s)\<rparr>"
    using assms
    by (cases "notificationHash c")
       (auto simp: findOneAndUpdate_def Let_def split: if_splits)
  show "\<And>h. notificationHash c = Some h \<Longrightarrow>
           notificationHash d = Some h \<or> \<not> hashTaken (docs s) h"
    using assms
    by (cases "notificationHash c")
       (auto simp: findOneAndUpdate_def Let_def split: if_splits)
qed

lemma wellFormed_findOneAndUpdate:
  assumes "wellFormed s" and "findOneAndUpdate i now c e s = Inr (r, s')"
  shows "wellFormed s'"
proof (cases "find (\<lambda>d. oid d = i) (docs s)")
  case None
  then show ?thesis using assms by (auto simp: findOneAndUpdate_def split: if_splits)
next
  case (Some d)
  then have d: "d \<in> set (docs s)" "oid d = i" by (auto simp: find_Some_iff)
  let ?d' = "applyUpdate now c e d"
  have s': "s' = s\<lparr>docs := updateOne (\<lambda>x. oid x = oid d) (\<lambda>_. ?d') (docs s)\<rparr>"
    using findOneAndUpdate_Some(1)[OF Some assms(2)] d(2) by simp
  have o: "oid ?d' = oid d" by (simp add: applyUpdate_keys)
  have h: "\<And>h. notificationHash ?d' = Some h \<Longrightarrow>
             \<not> hashTaken (docs s) h \<or> notificationHash d = Some h"
    using findOneAndUpdate_Some(2)[OF Some assms(2)]
    by (cases "notificationHash c") (auto simp: applyUpdate_keys upd_def)
  show ?thesis
    unfolding s' using wellFormed_replace[OF assms(1) d(1) o h] .
qed

lemma wellFormed_tryUpsert:
  assumes w: "wellFormed s" and t: "tryUpsert now c io src h s = Inr (r, s', evs)"
  shows "wellFormed s'"
proof (cases "find (recentWithHash h (thirtyDaysAgo now)) (docs s)")
  case None
  have "oid (newNotification (nextId s) now h c) = nextId s" by (simp add: newNotification_def)
  then show ?thesis
    using None t w
    by (auto simp: tryUpsert_def Let_def split: sum.splits dest: wellFormed_insertDoc)
next
  case (Some e)
  show ?thesis
  proof (cases "hasChanges e c")
    case True
    then show ?thesis
      using Some t wellFormed_findOneAndUpdate[OF w]
      by (auto simp: tryUpsert_def split: sum.splits option.splits)
  next
    case False
    then show ?thesis using Some t w by (simp add: tryUpsert_def)
  qed
qed

lemma wellFormed_upsert:
  assumes "wellFormed s" and "upsertNotification now c io src s = Inr (r, s', evs)"
  shows "wellFormed s'"
proof (cases "tryUpsert now c io src (hashOf c) s")
  case (Inr x)
  then show ?thesis
    using assms wellFormed_tryUpsert[OF assms(1), of now c io src "hashOf c"]
    by (cases x) (auto simp: upsertNotification_def)
next
  case (Inl e)
  then show ?thesis
    using assms
    by (cases e) (auto simp: upsertNotification_def split: option.splits)
qed

lemma wellFormed_storeAfter:
  "wellFormed s \<Longrightarrow> wellFormed (storeAfter s (upsertNotification now c io src s))"
  by (cases "upsertNotification now c io src s")
     (auto simp: storeAfter_def dest: wellFormed_upsert)


lemma wellFormed_updateOne_keep:
  assumes "wellFormed s" and "\<And>x. oid (f x) = oid x"
    and "\<And>x. notificationHash (f x) = notificationHash x"
  shows "wellFormed (s\<lparr>docs := updateOne p f (docs s)\<rparr>)"
  using wellFormed_same_keys[OF assms(1), of "updateOne p f (docs s)"] assms(2,3)
  by (simp add: map_updateOne_inv)

lemma wellFormed_updateMany_keep:
  assumes "wellFormed s" and "\<And>x. oid (f x) = oid x"
    and "\<And>x. notificationHash (f x) = notificationHash x"
  shows "wellFormed (s\<lparr>docs := updateMany p f (docs s)\<rparr>)"
  using wellFormed_same_keys[OF assms(1), of "updateMany p f (docs s)"] assms(2,3)
  by (simp add: map_updateMany_inv)

lemma wellFormed_checkStock: "wellFormed s \<Longrightarrow> wellFormed (fst (snd (checkStock now b io s)))"
  by (auto simp: checkStock_def Let_def deleteMany_def
      split: option.splits sum.splits prod.splits
      dest: wellFormed_upsert intro: wellFormed_filter)

lemma wellFormed_markRead: "wellFormed s \<Longrightarrow> wellFormed (fst (snd (markRead now i io s)))"
  by (auto simp: markRead_def Let_def split: option.splits intro: wellFormed_updateOne_keep)

lemma wellFormed_resolve:
  "wellFormed s \<Longrightarrow> wellFormed (fst (snd (resolveNotification now i note io s)))"
  by (auto simp: resolveNotification_def Let_def split: option.splits
      intro: wellFormed_updateOne_keep)

lemma wellFormed_markAllRead: "wellFormed s \<Longrightarrow> wellFormed (fst (snd (markAllRead now io s)))"
  by (auto simp: markAllRead_def Let_def intro: wellFormed_updateMany_keep)

lemma wellFormed_delete: "wellFormed s \<Longrightarrow> wellFormed (fst (snd (deleteNotification i io s)))"
  by (auto simp: deleteNotification_def split: option.splits intro: wellFormed_remove1)

lemma wellFormed_clearResolved: "wellFormed s \<Longrightarrow> wellFormed (fst (snd (clearResolved io s)))"
  by (auto simp: clearResolved_def Let_def deleteMany_def intro: wellFormed_filter)

lemma wellFormed_alertStep:
  "wellFormed (fst (snd st)) \<Longrightarrow> wellFormed (fst (snd (alertStep now io src st c)))"
  by (cases st)
     (auto simp: alertStep_def split: sum.splits prod.splits dest: wellFormed_upsert)

lemma wellFormed_alertSteps:
  "wellFormed (fst (snd st)) \<Longrightarrow> wellFormed (fst (snd (foldl (alertStep now io src) st cs)))"
  by (induction cs arbitrary: st) (simp_all add: wellFormed_alertStep)

lemma wellFormed_resolveStep:
  "wellFormed (fst st) \<Longrightarrow> wellFormed (fst (resolveStep now io src st hn))"
  by (cases st; cases hn)
     (auto simp: resolveStep_def Let_def intro: wellFormed_updateMany_keep)

lemma wellFormed_resolveSteps:
  "wellFormed (fst st) \<Longrightarrow> wellFormed (fst (foldl (resolveStep now io src) st hs))"
  by (induction hs arbitrary: st) (simp_all add: wellFormed_resolveStep)

lemma wellFormed_generateGSTAlerts:
  assumes "wellFormed s"
  shows "wellFormed (fst (snd (generateGSTAlerts now io env s)))"
proof -
  obtain alerts s1 evs1 where l: "foldl (alertStep now io ''gst_service'') ([], s, [])
      (map (gstData now) (pendingTaxEntries env)) = (alerts, s1, evs1)"
    by (metis prod_cases3)
  have w1: "wellFormed s1"
    using wellFormed_alertSteps[of "([], s, [])" now io "''gst_service''"
        "map (gstData now) (pendingTaxEntries env)"] assms l by simp
  obtain s2 evs2 where r: "foldl (resolveStep now io ''gst_service'') (s1, evs1)
      (map paidTaxHash (paidTaxEntries env)) = (s2, evs2)"
    by (metis surj_pair)
  have w2: "wellFormed s2"
    using wellFormed_resolveSteps[of "(s1, evs1)" now io "''gst_service''"
        "map paidTaxHash (paidTaxEntries env)"] w1 r by simp
  show ?thesis using assms l r w1 w2 by (simp add: generateGSTAlerts_def)
qed

lemma wellFormed_generatePaymentAlerts:
  assumes "wellFormed s"
  shows "wellFormed (fst (snd (generatePaymentAlerts now io env s)))"
proof -
  obtain alerts s1 evs1 where l: "foldl (alertStep now io ''payment_service'') ([], s, [])
      (map (paymentData now env) (filter (\<lambda>ord. truthy (order_orderId ord)) (pendingOrders env)))
      = (alerts, s1, evs1)"
    by (metis prod_cases3)
  have w1: "wellFormed s1"
    using wellFormed_alertSteps[of "([], s, [])" now io "''payment_service''"
        "map (paymentData now env) (filter (\<lambda>ord. truthy (order_orderId ord)) (pendingOrders env))"]
      assms l by simp
  obtain s2 evs2 where r: "foldl (resolveStep now io ''payment_service'') (s1, evs1)
      (map paidOrderHash (paidOrders env)) = (s2, evs2)"
    by (metis surj_pair)
  have w2: "wellFormed s2"
    using wellFormed_resolveSteps[of "(s1, evs1)" now io "''payment_service''"
        "map paidOrderHash (paidOrders env)"] w1 r by simp
  show ?thesis using assms l r w1 w2 by (simp add: generatePaymentAlerts_def)
qed

lemma wellFormed_getNotifications:
  assumes "wellFormed s"
  shows "wellFormed (fst (snd (getNotifications now io env s)))"
proof -
  obtain g s1 e1 where a: "generateGSTAlerts now io env s = (g, s1, e1)" by (metis prod_cases3)
  obtain p s2 e2 where b: "generatePaymentAlerts now io env s1 = (p, s2, e2)"
    by (metis prod_cases3)
  have "wellFormed s1" using wellFormed_generateGSTAlerts[OF assms, of now io env] a by simp
  then have "wellFormed s2" using wellFormed_generatePaymentAlerts[of s1 now io env] b by simp
  then show ?thesis using a b by (simp add: getNotifications_def)
qed

lemma wellFormed_serverUpsert: "wellFormed s \<Longrightarrow> wellFormed (serverUpsert now c s)"
proof -
  assume w: "wellFormed s"
  show ?thesis
  proof (cases "find (\<lambda>d. ntype d = ntype c \<and> productId d = castId (productId c)
                          \<and> isRead d = Some False) (docs s)")
    case None
    then show ?thesis
      using w by (auto simp: serverUpsert_def Let_def newNotification_def intro!: wellFormed_append)
  next
    case (Some e)
    then have e: "e \<in> set (docs s)" by (auto simp: find_Some_iff)
    show ?thesis
      using Some w
      by (auto simp: serverUpsert_def Let_def intro!: wellFormed_replace[OF w e])
  qed
qed

lemma wellFormed_socket:
  "wellFormed s \<Longrightarrow> wellFormed (socketMarkRead now i s)"
  "wellFormed s \<Longrightarrow> wellFormed (socketMarkAllRead now s)"
  "wellFormed s \<Longrightarrow> wellFormed (socketDelete i s)"
  by (auto simp: socketMarkRead_def socketMarkAllRead_def socketDelete_def split: option.splits
      intro: wellFormed_updateOne_keep wellFormed_updateMany_keep wellFormed_remove1)

lemma wellFormed_step: "step s s' \<Longrightarrow> wellFormed s \<Longrightarrow> wellFormed s'"
  by (induction rule: step.induct)
     (auto intro: wellFormed_upsert wellFormed_checkStock wellFormed_markRead wellFormed_resolve
        wellFormed_markAllRead wellFormed_delete wellFormed_clearResolved
        wellFormed_getNotifications wellFormed_serverUpsert wellFormed_socket)

lemma wellFormed_reachable: "reachable s \<Longrightarrow> wellFormed s"
proof (induction rule: reachable.induct)
  case reachable_init
  show ?case by (simp add: wellFormed_def hashes_Nil)
next
  case (reachable_step s s')
  then show ?case using wellFormed_step by blast
qed


subsection \<open>One record per hash (C2)\<close>

lemma distinct_hashes_unique:
  assumes "distinct (hashes ds)" and "d1 \<in> set ds" and "d2 \<in> set ds"
    and "notificationHash d1 = Some h" and "notificationHash d2 = Some h"
  shows "d1 = d2"
  using assms
proof (induction ds)
  case Nil
  then show ?case by simp
next
  case (Cons x xs)
  have tail: "distinct (hashes xs)"
    using Cons.prems(1) by (auto simp: hashes_Cons split: option.splits)
  have fresh: "notificationHash x = Some h \<Longrightarrow> \<not> hashTaken xs h"
    using Cons.prems(1) by (auto simp: hashes_Cons set_hashes)
  show ?case
    using Cons.IH[OF tail] Cons.prems(2-5) fresh by (auto simp: hashTaken_def)
qed

lemma distinct_hashes_at_most_one:
  "distinct (hashes ds) \<Longrightarrow> length (filter (\<lambda>d. notificationHash d = Some h) ds) \<le> 1"
proof (induction ds)
  case Nil
  then show ?case by simp
next
  case (Cons x xs)
  have tail: "distinct (hashes xs)"
    using Cons.prems by (auto simp: hashes_Cons split: option.splits)
  show ?case
  proof (cases "notificationHash x = Some h")
    case True
    then have "\<not> hashTaken xs h" using Cons.prems by (auto simp: hashes_Cons set_hashes)
    then have "filter (\<lambda>d. notificationHash d = Some h) xs = []"
      by (auto simp: filter_empty_conv hashTaken_def)
    then show ?thesis using True by simp
  next
    case False
    then show ?thesis using Cons.IH[OF tail] by simp
  qed
qed

lemma reachable_unique_hash:
  assumes "reachable s" and "d1 \<in> set (docs s)" and "d2 \<in> set (docs s)"
    and "notificationHash d1 = Some h" and "notificationHash d2 = Some h"
  shows "d1 = d2"
  using wellFormed_reachable[OF assms(1)] distinct_hashes_unique[OF _ assms(2-5)]
  by (simp add: wellFormed_def)

text \<open>
  C2, as the code has it. In every reachable store at most one record, resolved or not,
  carries a given \<^verbatim>\<open>notificationHash\<close>: the unique index admits no second one. So at most
  one unresolved record exists per hash, and a resolved record never shares its hash with
  another record; two records that carry the same hash are the same record.
\<close>

theorem one_record_per_hash:
  assumes "reachable s"
  shows "length (filter (\<lambda>d. notificationHash d = Some h \<and> isResolved d = Some False) (docs s)) \<le> 1
     \<and> length (filter (\<lambda>d. notificationHash d = Some h) (docs s)) \<le> 1
     \<and> (\<forall>d1 \<in> set (docs s). \<forall>d2 \<in> set (docs s).
           notificationHash d1 = Some h \<and> notificationHash d2 = Some h \<longrightarrow> d1 = d2)"
proof -
  have d: "distinct (hashes (docs s))"
    using wellFormed_reachable[OF assms] by (simp add: wellFormed_def)
  have a: "length (filter (\<lambda>d. notificationHash d = Some h) (docs s)) \<le> 1"
    using distinct_hashes_at_most_one[OF d] .
  have "filter (\<lambda>d. notificationHash d = Some h \<and> isResolved d = Some False) (docs s)
        = filter (\<lambda>d. isResolved d = Some False) (filter (\<lambda>d. notificationHash d = Some h) (docs s))"
    by (simp add: conj_commute)
  then have b: "length (filter (\<lambda>d. notificationHash d = Some h \<and> isResolved d = Some False)
                  (docs s)) \<le> 1"
    using le_trans[OF length_filter_le a, of "\<lambda>d. isResolved d = Some False"]
    by (simp only:)
  show ?thesis
    using a b distinct_hashes_unique[OF d] by blast
qed

lemma reachable_oneUnread: "reachable oneUnread"
proof -
  have "\<exists>r evs. upsertNotification 1000 samplePayload True ''page'' \<lparr>docs = [], nextId = 0\<rparr>
          = Inr (r, oneUnread, evs)"
    by (simp add: oneUnread_def sample_defs upsert_eval)
  then show ?thesis
    using reachable_step[OF reachable_init step_upsert] by blast
qed

theorem one_record_per_hash_witness:
  "reachable oneUnread
   \<and> length (filter (\<lambda>d. notificationHash d = Some ''h1'' \<and> isResolved d = Some False)
        (docs oneUnread)) \<le> 1
   \<and> length (filter (\<lambda>d. notificationHash d = Some ''h1'') (docs oneUnread)) \<le> 1"
  using one_record_per_hash[OF reachable_oneUnread, of "''h1''"] reachable_oneUnread by blast

text \<open>
  C2 says that a resolved notification can share its hash with another stored
  notification. No reachable store holds two such records.
\<close>

theorem resolved_history_counterexample:
  "\<not> (\<exists>s d1 d2 h. reachable s \<and> d1 \<in> set (docs s) \<and> d2 \<in> set (docs s) \<and> d1 \<noteq> d2
         \<and> isResolved d1 = Some True
         \<and> notificationHash d1 = Some h \<and> notificationHash d2 = Some h)"
  using reachable_unique_hash by blast


subsection \<open>A failing scan does not stop the other generator (C8)\<close>




lemma generatePaymentAlerts_no_orders:
  "orders env = [] \<Longrightarrow> \<not> pendingOrderScanFails env \<Longrightarrow> \<not> paidOrderScanFails env
     \<Longrightarrow> generatePaymentAlerts now io env s = ([], s, [])"
  by (simp add: generatePaymentAlerts_def pendingOrders_def paidOrders_def sortBy_def)












end
